theory Spec2Isabelle
  imports Complex_Main
begin

section \<open>Errors and Python containers\<close>

text \<open>
  The exceptions that the modelled Python code (and the numpy / torch calls it makes)
  can raise. A fallible function returns \<open>py_error + 'a\<close>, \<open>Inl\<close> being the raise.
\<close>

datatype py_error =
  KeyError | IndexError | ValueError | RuntimeError | ZeroDivisionError | TypeError | NameError
  | ConfigurationError

text \<open>
  A Python \<open>dict\<close> is kept as the list of its items, in insertion order; \<open>len\<close> is the
  number of items and \<open>d[k]\<close> raises \<open>KeyError\<close> for a missing key.
\<close>

type_synonym ('k, 'v) dict = "('k \<times> 'v) list"

definition dict_len :: "('k, 'v) dict \<Rightarrow> nat" where
  "dict_len d = length d"

definition dict_get :: "('k, 'v) dict \<Rightarrow> 'k \<Rightarrow> py_error + 'v" where
  "dict_get d k = (case map_of d k of None \<Rightarrow> Inl KeyError | Some v \<Rightarrow> Inr v)"

section \<open>cnn\_encoder\_model.py: configuration and construction\<close>

record cnn_encoder_params =
  input_dims :: "int list"
  output_dims :: "int list"
  kernel_sizes :: "int list"

record CNNConfig =
  cnn_encoder_params :: cnn_encoder_params
  max_seq_len :: int
  label2id :: "(string, int) dict"

text \<open>
  Line 56 and 57 of \<open>CNNModel.__init__\<close>: the size after \<open>MaxPool2d\<close>,
  \<open>((x - dilation * (kernel_size - 1) - 1) // stride) + 1\<close>. Python's \<open>//\<close> on ints is
  floor division, as \<open>div\<close> on \<open>int\<close> is.
\<close>

definition maxpool_out :: "int \<Rightarrow> int \<Rightarrow> int \<Rightarrow> int \<Rightarrow> int" where
  "maxpool_out kernel_size dilation stride x =
     ((x - dilation * (kernel_size - 1) - 1) div stride) + 1"

text \<open>
  The \<open>for c_in, c_out in zip(input_dims, output_dims)\<close> loop of lines 51 to 59, on the
  loop state \<open>(h, w, c)\<close>, with \<open>kernel_size = 2\<close>, \<open>dilation = 1\<close>, \<open>stride = 2\<close>.
\<close>

fun dim_loop :: "(int \<times> int) list \<Rightarrow> int \<times> int \<times> int \<Rightarrow> int \<times> int \<times> int" where
  "dim_loop [] (h, w, c) = (h, w, c)"
| "dim_loop ((c_in, c_out) # rest) (h, w, c) =
     dim_loop rest (maxpool_out 2 1 2 h, maxpool_out 2 1 2 w, c_out)"

definition compute_output_dim :: "CNNConfig \<Rightarrow> int" where
  "compute_output_dim config =
     (case dim_loop (zip (input_dims (cnn_encoder_params config))
                         (output_dims (cnn_encoder_params config)))
                    (max_seq_len config, int (dict_len (label2id config)), 1)
      of (h, w, c) \<Rightarrow> h * w * c)"

text \<open>
  \<open>CNNEncoder\<close> (module \<open>encoders\<close>) is not part of the sources at hand: its constructor is
  a parameter \<open>CNNEncoder\<close> of the model, which either raises or returns an encoder of an
  arbitrary type \<open>'enc\<close>.
\<close>

record 'enc CNNModel =
  cnn_encoder :: 'enc
  output_dim :: int

definition CNNModel_init ::
  "(cnn_encoder_params \<Rightarrow> py_error + 'enc) \<Rightarrow> CNNConfig \<Rightarrow> py_error + 'enc CNNModel" where
  "CNNModel_init CNNEncoder config =
     (case CNNEncoder (cnn_encoder_params config) of
        Inl e \<Rightarrow> Inl e
      | Inr enc \<Rightarrow> Inr \<lparr>cnn_encoder = enc, output_dim = compute_output_dim config\<rparr>)"

text \<open>
  \<open>CNNModelForSequenceClassification\<close> extends \<open>CNNModel\<close> by the head
  \<open>torch.nn.Linear(self.output_dim, len(self.config.label2id))\<close>, kept as its two widths.
\<close>

record 'enc CNNModelForSequenceClassification = "'enc CNNModel" +
  head_in_features :: int
  head_out_features :: int

definition CNNModelForSequenceClassification_init ::
  "(cnn_encoder_params \<Rightarrow> py_error + 'enc) \<Rightarrow> CNNConfig
     \<Rightarrow> py_error + 'enc CNNModelForSequenceClassification" where
  "CNNModelForSequenceClassification_init CNNEncoder config =
     (case CNNModel_init CNNEncoder config of
        Inl e \<Rightarrow> Inl e
      | Inr m \<Rightarrow> Inr (CNNModel.extend m
          (CNNModelForSequenceClassification.fields (output_dim m)
             (int (dict_len (label2id config))))))"

text \<open>
  The shape derivation in the words of the specification: start from height
  \<open>max_seq_len\<close>, width the label count and one channel; each stage keeps height and width
  through the convolution, then maps both by \<open>new = floor((old - (kernel - 1) - 1) / stride) + 1\<close>
  with kernel 2 and stride 2, and sets the channels to the stage's output channel count.
\<close>

definition spec_pool :: "int \<Rightarrow> int" where
  "spec_pool old = \<lfloor>(of_int (old - (2 - 1) - 1) :: rat) / 2\<rfloor> + 1"

definition spec_stage :: "int \<times> int \<times> int \<Rightarrow> int \<times> int \<Rightarrow> int \<times> int \<times> int" where
  "spec_stage s stage = (case s of (h, w, c) \<Rightarrow> (spec_pool h, spec_pool w, snd stage))"

definition spec_flat_dim :: "int \<Rightarrow> int \<Rightarrow> (int \<times> int) list \<Rightarrow> int" where
  "spec_flat_dim seq_len label_count stages =
     (case foldl spec_stage (seq_len, label_count, 1) stages of (h, w, c) \<Rightarrow> h * w * c)"

text \<open>
  Modelled from the spec: the constructor of \<open>CNNEncoder\<close> (module \<open>encoders\<close>), which is
  not among the sources. The specification requires of malformed \<open>cnn_encoder_params\<close>,
  lists of input and of output channel counts of different lengths, that construction
  fails with a configuration error and does not truncate; otherwise the encoder is built
  from the stages that the parameters list, and is kept here as these parameters.
\<close>

definition CNNEncoder_init :: "cnn_encoder_params \<Rightarrow> py_error + cnn_encoder_params" where
  "CNNEncoder_init params =
     (if length (input_dims params) \<noteq> length (output_dims params) then Inl ConfigurationError
      else Inr params)"

section \<open>cnn\_encoder\_model.py: the image representation\<close>

text \<open>
  \<open>NTPCNNModel.prepare_input\<close>, lines 133 to 164. The values of the float tensor are kept
  as exact rationals: the rounding of 32-bit floats is not modelled. Division of a float
  tensor by zero raises nothing in torch; it gives \<open>nan\<close> for \<open>0 / 0\<close> and an infinity
  otherwise, which \<open>float_div\<close> writes out.
\<close>

datatype tfloat = Finite rat | PosInf | NegInf | NaN

definition float_div :: "int \<Rightarrow> int \<Rightarrow> tfloat" where
  "float_div x m =
     (if m = 0 then (if x = 0 then NaN else if 0 < x then PosInf else NegInf)
      else Finite (of_int x / of_int m))"

text \<open>
  An index into a numpy array of length \<open>n\<close>: a negative index counts from the end, and
  an index outside \<open>[-n, n)\<close> raises \<open>IndexError\<close>.
\<close>

definition np_index :: "nat \<Rightarrow> int \<Rightarrow> py_error + nat" where
  "np_index n i =
     (if 0 \<le> i \<and> i < int n then Inr (nat i)
      else if - int n \<le> i \<and> i < 0 then Inr (nat (i + int n))
      else Inl IndexError)"

text \<open>
  The loop \<open>for title in titles\<close> of lines 145 to 148 on the state \<open>last_repr\<close>; the result
  is the list \<open>image_repr\<close> of the copies appended, in order. \<open>label2id[title]\<close> raises
  \<open>KeyError\<close> for a title that is no key.
\<close>

fun count_rows :: "(string, int) dict \<Rightarrow> string list \<Rightarrow> int list \<Rightarrow> py_error + int list list" where
  "count_rows d [] last_repr = Inr []"
| "count_rows d (title # titles) last_repr =
     (case dict_get d title of
        Inl e \<Rightarrow> Inl e
      | Inr title_idx \<Rightarrow>
         (case np_index (length last_repr) title_idx of
            Inl e \<Rightarrow> Inl e
          | Inr j \<Rightarrow>
             (case count_rows d titles (last_repr[j := last_repr ! j + 1]) of
                Inl e \<Rightarrow> Inl e
              | Inr rows \<Rightarrow> Inr (last_repr[j := last_repr ! j + 1] # rows))))"

text \<open>
  \<open>np.vstack\<close> raises \<open>ValueError\<close> on an empty list of rows. \<open>np.pad\<close> with the pad widths
  \<open>[(0, after), (0, 0)]\<close> appends \<open>after\<close> rows of zeros and raises \<open>ValueError\<close> when
  \<open>after\<close> is negative. \<open>np.max\<close> raises \<open>ValueError\<close> on an array without elements.
\<close>

definition np_vstack :: "int list list \<Rightarrow> py_error + int list list" where
  "np_vstack rows = (if rows = [] then Inl ValueError else Inr rows)"

definition np_pad_rows :: "int list list \<Rightarrow> int \<Rightarrow> py_error + int list list" where
  "np_pad_rows a after =
     (if after < 0 then Inl ValueError
      else Inr (a @ replicate (nat after) (replicate (length (hd a)) 0)))"

definition np_max :: "int list list \<Rightarrow> py_error + int" where
  "np_max a = (case concat a of [] \<Rightarrow> Inl ValueError | x # xs \<Rightarrow> Inr (fold max xs x))"

text \<open>
  Lines 143 to 154: the matrix of counts of one title sequence, stacked and padded, before
  normalisation. Lines 155 and 156: its maximum, and the division of every entry by it,
  under the channel dimension that \<open>unsqueeze(0)\<close> adds.
\<close>

definition padded_counts :: "CNNConfig \<Rightarrow> string list \<Rightarrow> py_error + int list list" where
  "padded_counts config titles =
     (case count_rows (label2id config) titles (replicate (dict_len (label2id config)) 0) of
        Inl e \<Rightarrow> Inl e
      | Inr image_repr \<Rightarrow>
         (case np_vstack image_repr of
            Inl e \<Rightarrow> Inl e
          | Inr stacked \<Rightarrow> np_pad_rows stacked (max_seq_len config - int (length stacked))))"

definition image_of_titles :: "CNNConfig \<Rightarrow> string list \<Rightarrow> py_error + tfloat list list list" where
  "image_of_titles config titles =
     (case padded_counts config titles of
        Inl e \<Rightarrow> Inl e
      | Inr image_repr \<Rightarrow>
         (case np_max image_repr of
            Inl e \<Rightarrow> Inl e
          | Inr max_image_repr_value \<Rightarrow>
              Inr [map (map (\<lambda>x. float_div x max_image_repr_value)) image_repr]))"

text \<open>
  The loop \<open>for titles in batch['titles']\<close>, which stops at the first sequence that raises,
  and \<open>torch.stack\<close>, which raises \<open>RuntimeError\<close> on an empty list of tensors. The
  tensors stacked here all have the shape \<open>(1, max_seq_len, len(label2id))\<close>, so the
  shape test of \<open>torch.stack\<close> is left out.
\<close>

fun image_reprs_loop :: "CNNConfig \<Rightarrow> string list list \<Rightarrow> py_error + tfloat list list list list" where
  "image_reprs_loop config [] = Inr []"
| "image_reprs_loop config (titles # rest) =
     (case image_of_titles config titles of
        Inl e \<Rightarrow> Inl e
      | Inr image_repr \<Rightarrow>
         (case image_reprs_loop config rest of
            Inl e \<Rightarrow> Inl e
          | Inr image_reprs \<Rightarrow> Inr (image_repr # image_reprs)))"

definition torch_stack :: "'a list \<Rightarrow> py_error + 'a list" where
  "torch_stack tensors = (if tensors = [] then Inl RuntimeError else Inr tensors)"

text \<open>
  The batch holds the title sequences and, when the key \<open>"labels"\<close> is present, the label
  ids, which \<open>flatten\<close> concatenates.
\<close>

record cnn_batch =
  titles :: "string list list"
  label_ids :: "int list list option"

record cnn_input_dict =
  image :: "tfloat list list list list"
  input_labels :: "int list option"

definition NTPCNNModel_prepare_input :: "CNNConfig \<Rightarrow> cnn_batch \<Rightarrow> py_error + cnn_input_dict" where
  "NTPCNNModel_prepare_input config batch =
     (case image_reprs_loop config (titles batch) of
        Inl e \<Rightarrow> Inl e
      | Inr image_reprs \<Rightarrow>
         (case torch_stack image_reprs of
            Inl e \<Rightarrow> Inl e
          | Inr stacked \<Rightarrow>
              Inr \<lparr>image = stacked, input_labels = map_option concat (label_ids batch)\<rparr>))"

text \<open>
  The column that a title increments (if it has one), the number of titles of a prefix
  that increment column \<open>j\<close>, and the condition on a label vocabulary that every id is
  an index of a column (the dense ids \<open>0, ..., n - 1\<close> of the label vocabulary are).
\<close>

definition column_of :: "(string, int) dict \<Rightarrow> nat \<Rightarrow> string \<Rightarrow> nat option" where
  "column_of d n title =
     (case dict_get d title of
        Inl e \<Rightarrow> None
      | Inr title_idx \<Rightarrow> (case np_index n title_idx of Inl e \<Rightarrow> None | Inr j \<Rightarrow> Some j))"

definition occurrences :: "(string, int) dict \<Rightarrow> nat \<Rightarrow> string list \<Rightarrow> nat \<Rightarrow> int" where
  "occurrences d n seen j = int (length (filter (\<lambda>t. column_of d n t = Some j) seen))"

definition valid_label_ids :: "(string, int) dict \<Rightarrow> bool" where
  "valid_label_ids d = (\<forall>v \<in> set (map snd d). - int (length d) \<le> v \<and> v < int (length d))"

definition in_unit_range :: "tfloat \<Rightarrow> bool" where
  "in_unit_range x = (case x of Finite q \<Rightarrow> 0 \<le> q \<and> q \<le> 1 | _ \<Rightarrow> False)"


text \<open>A configuration with three labels and four rows, for the instances below.\<close>

definition demo_config :: CNNConfig where
  "demo_config =
     \<lparr>cnn_encoder_params = \<lparr>input_dims = [1], output_dims = [4], kernel_sizes = [3]\<rparr>,
      max_seq_len = 4,
      label2id = [(''a'', 0), (''b'', 1), (''c'', 2)]\<rparr>"

section \<open>t5.py: tasks and configuration\<close>

text \<open>
  The task templates that \<open>t5.py\<close> imports and instantiates: \<open>DirectNTP()\<close>,
  \<open>DirectNTPSideInfo()\<close>, \<open>BoolNTP(list(all_unique_labels))\<close>, \<open>ClusteredNTP()\<close> and
  \<open>ClusteredNTPSideInfo()\<close>. A primitive value is a string or a list of primitive values.
\<close>

datatype Task =
  DirectNTP | DirectNTPSideInfo | BoolNTP "string list" | ClusteredNTP | ClusteredNTPSideInfo

datatype prim = PStr string | PList "prim list"

type_synonym task_json = "string \<times> (string, prim) dict"

text \<open>
  Modelled from the spec: \<open>Task.to_json\<close> and \<open>Task.from_eval\<close> of the module \<open>templates\<close>,
  which is not among the sources. The specification asks of every task a canonical
  serialisation, class tag and constructor parameters, and the reconstruction from it
  through a registry from tag to constructor; the boolean-candidate task carries its list
  of candidate labels (the name of that parameter is not given, \<open>all_labels\<close> stands for
  it). A tag outside the registry raises \<open>NameError\<close>, parameters that do not fit the
  constructor raise \<open>TypeError\<close>.
\<close>

fun Task_to_json :: "Task \<Rightarrow> task_json" where
  "Task_to_json DirectNTP = (''DirectNTP'', [])"
| "Task_to_json DirectNTPSideInfo = (''DirectNTPSideInfo'', [])"
| "Task_to_json (BoolNTP all_labels) = (''BoolNTP'', [(''all_labels'', PList (map PStr all_labels))])"
| "Task_to_json ClusteredNTP = (''ClusteredNTP'', [])"
| "Task_to_json ClusteredNTPSideInfo = (''ClusteredNTPSideInfo'', [])"

fun str_list :: "prim list \<Rightarrow> string list option" where
  "str_list [] = Some []"
| "str_list (PStr s # ps) = map_option ((#) s) (str_list ps)"
| "str_list (PList l # ps) = None"

definition no_parameters :: "Task \<Rightarrow> (string, prim) dict \<Rightarrow> py_error + Task" where
  "no_parameters task parameters = (if parameters = [] then Inr task else Inl TypeError)"

definition Task_from_eval :: "string \<Rightarrow> (string, prim) dict \<Rightarrow> py_error + Task" where
  "Task_from_eval task_class parameters =
     (if task_class = ''DirectNTP'' then no_parameters DirectNTP parameters
      else if task_class = ''DirectNTPSideInfo'' then no_parameters DirectNTPSideInfo parameters
      else if task_class = ''ClusteredNTP'' then no_parameters ClusteredNTP parameters
      else if task_class = ''ClusteredNTPSideInfo''
        then no_parameters ClusteredNTPSideInfo parameters
      else if task_class = ''BoolNTP'' then
        (case parameters of
           [(name, PList ps)] \<Rightarrow>
             (if name = ''all_labels'' then
                (case str_list ps of None \<Rightarrow> Inl TypeError | Some ls \<Rightarrow> Inr (BoolNTP ls))
              else Inl TypeError)
         | _ \<Rightarrow> Inl TypeError)
      else Inl NameError)"

text \<open>
  The label vocabulary of the configuration is a numpy array (the default of
  \<open>__init__\<close> is \<open>np.array([])\<close>) or a Python list (what \<open>list(...)\<close> in \<open>to_dict\<close> makes of it).
\<close>

datatype label_seq = NpArray "string list" | PyList "string list"

fun elements :: "label_seq \<Rightarrow> string list" where
  "elements (NpArray ls) = ls"
| "elements (PyList ls) = ls"

text \<open>
  \<open>NTPT5Config\<close>, with the three fields it adds and \<open>num_return_sequences\<close>, which
  \<open>valid_step\<close> reads; the fields of \<open>T5Config\<close> that the base class copies to the dictionary
  and back unchanged are represented by this one. \<open>config_dict\<close> is the dictionary that
  \<open>to_dict\<close> returns and \<open>from_dict\<close> receives, in which each of the three keys may be
  missing; \<open>config_kwargs\<close> are the three keyword arguments that \<open>from_dict\<close> pops.
\<close>

record NTPT5Config =
  training_tasks :: "Task list"
  test_task :: Task
  all_unique_labels :: label_seq
  num_return_sequences :: nat

record config_dict =
  dict_training_tasks :: "task_json list option"
  dict_test_task :: "task_json option"
  dict_all_unique_labels :: "string list option"
  dict_num_return_sequences :: nat

record config_kwargs =
  kw_training_tasks :: "Task list option"
  kw_test_task :: "Task option"
  kw_all_unique_labels :: "label_seq option"

definition no_kwargs :: config_kwargs where
  "no_kwargs = \<lparr>kw_training_tasks = None, kw_test_task = None, kw_all_unique_labels = None\<rparr>"

text \<open>\<open>NTPT5Config.__init__\<close>, lines 24 to 37, with its defaults.\<close>

definition NTPT5Config_init ::
  "Task list option \<Rightarrow> Task option \<Rightarrow> label_seq option \<Rightarrow> nat \<Rightarrow> NTPT5Config" where
  "NTPT5Config_init tasks test labels n =
     \<lparr>training_tasks = (case tasks of None \<Rightarrow> [] | Some ts \<Rightarrow> ts),
      test_task = (case test of None \<Rightarrow> DirectNTP | Some t \<Rightarrow> t),
      all_unique_labels = (case labels of None \<Rightarrow> NpArray [] | Some ls \<Rightarrow> ls),
      num_return_sequences = n\<rparr>"

text \<open>\<open>to_dict\<close>, lines 70 to 77.\<close>

definition to_dict :: "NTPT5Config \<Rightarrow> config_dict" where
  "to_dict config =
     \<lparr>dict_training_tasks = Some (map Task_to_json (training_tasks config)),
      dict_test_task = Some (Task_to_json (test_task config)),
      dict_all_unique_labels = Some (elements (all_unique_labels config)),
      dict_num_return_sequences = num_return_sequences config\<rparr>"

text \<open>
  \<open>from_dict\<close>, lines 39 to 67. The loop over \<open>config_dict["training_tasks"]\<close> stops at the
  first task that \<open>Task.from_eval\<close> rejects; a missing key \<open>training_tasks\<close> raises
  \<open>KeyError\<close> when no keyword argument replaces it. The call of the base class at the
  end constructs the configuration from the entries of the dictionary.
\<close>

fun eval_tasks :: "task_json list \<Rightarrow> py_error + Task list" where
  "eval_tasks [] = Inr []"
| "eval_tasks ((train_task_class, train_task_parameters) # rest) =
     (case Task_from_eval train_task_class train_task_parameters of
        Inl e \<Rightarrow> Inl e
      | Inr eval_task \<Rightarrow>
         (case eval_tasks rest of Inl e \<Rightarrow> Inl e | Inr ts \<Rightarrow> Inr (eval_task # ts)))"

definition from_dict :: "config_dict \<Rightarrow> config_kwargs \<Rightarrow> py_error + NTPT5Config" where
  "from_dict cd kwargs =
     (case (case kw_training_tasks kwargs of
              Some ts \<Rightarrow> Inr ts
            | None \<Rightarrow>
               (case dict_training_tasks cd of
                  None \<Rightarrow> Inl KeyError
                | Some js \<Rightarrow> eval_tasks js)) of
        Inl e \<Rightarrow> Inl e
      | Inr tasks \<Rightarrow>
         (case (case kw_test_task kwargs of
                  Some t \<Rightarrow> Inr (Some t)
                | None \<Rightarrow>
                   (case dict_test_task cd of
                      None \<Rightarrow> Inr None
                    | Some (test_task_class, test_task_parameters) \<Rightarrow>
                       (case Task_from_eval test_task_class test_task_parameters of
                          Inl e \<Rightarrow> Inl e
                        | Inr t \<Rightarrow> Inr (Some t)))) of
            Inl e \<Rightarrow> Inl e
          | Inr test \<Rightarrow>
              Inr (NTPT5Config_init (Some tasks) test
                     (case kw_all_unique_labels kwargs of
                        Some ls \<Rightarrow> Some ls
                      | None \<Rightarrow> map_option PyList (dict_all_unique_labels cd))
                     (dict_num_return_sequences cd))))"

text \<open>
  A finite distribution is the list of its outcomes, each with its probability;
  \<open>prob d A\<close> is the probability of the event \<open>A\<close>. A computation that draws twice is the
  \<open>bind_dist\<close> of the two draws.
\<close>

type_synonym 'a dist = "('a \<times> rat) list"

definition return_dist :: "'a \<Rightarrow> 'a dist" where
  "return_dist x = [(x, 1)]"

definition bind_dist :: "'a dist \<Rightarrow> ('a \<Rightarrow> 'b dist) \<Rightarrow> 'b dist" where
  "bind_dist d f = concat (map (\<lambda>(x, p). map (\<lambda>(y, q). (y, p * q)) (f x)) d)"

definition prob :: "'a dist \<Rightarrow> ('a \<Rightarrow> bool) \<Rightarrow> rat" where
  "prob d A = sum_list (map snd (filter (\<lambda>(x, p). A x) d))"

text \<open>
  \<open>random.choice(seq)\<close> of the standard library raises \<open>IndexError\<close> on an empty sequence
  and otherwise returns \<open>seq[i]\<close> for an index \<open>i\<close> drawn below \<open>len(seq)\<close>, every index
  with the same probability: one outcome per position of the sequence, each with
  probability \<open>1 / len(seq)\<close>.
\<close>

definition random_choice :: "'a list \<Rightarrow> (py_error + 'a) dist" where
  "random_choice seq =
     (if seq = [] then return_dist (Inl IndexError)
      else map (\<lambda>x. (Inr x, 1 / of_nat (length seq))) seq)"

text \<open>
  \<open>NTPT5.tokenize\<close>, line 138: the choice of the task,
  \<open>random.choice(self.config.training_tasks) if self.training else self.config.test_task\<close>,
  as the distribution of the task that the call uses; and two calls of \<open>tokenize\<close> one
  after the other, each with its own draw.
\<close>

definition tokenize_task :: "bool \<Rightarrow> NTPT5Config \<Rightarrow> (py_error + Task) dist" where
  "tokenize_task training config =
     (if training then random_choice (training_tasks config)
      else return_dist (Inr (test_task config)))"

definition tokenize_twice ::
  "bool \<Rightarrow> NTPT5Config \<Rightarrow> ((py_error + Task) \<times> (py_error + Task)) dist" where
  "tokenize_twice training config =
     bind_dist (tokenize_task training config)
       (\<lambda>first. bind_dist (tokenize_task training config)
          (\<lambda>second. return_dist (first, second)))"

text \<open>A configuration for the instances below.\<close>

definition demo_t5_config :: NTPT5Config where
  "demo_t5_config =
     \<lparr>training_tasks = [DirectNTP, DirectNTPSideInfo, BoolNTP [''a'', ''b'']],
      test_task = ClusteredNTPSideInfo,
      all_unique_labels = NpArray [''a'', ''b''],
      num_return_sequences = 3\<rparr>"

section \<open>t5.py: batching\<close>

text \<open>
  \<open>torch.nn.utils.rnn.pad_sequence\<close> with \<open>batch_first=True\<close> on one-dimensional tensors:
  every sequence is filled at its end with \<open>padding_value\<close> up to the length of the
  longest sequence of the list; an empty list of sequences raises \<open>RuntimeError\<close>.
\<close>

definition max_length :: "'a list list \<Rightarrow> nat" where
  "max_length sequences = fold max (map length sequences) 0"

definition pad_sequence :: "int list list \<Rightarrow> int \<Rightarrow> py_error + int list list" where
  "pad_sequence sequences padding_value =
     (if sequences = [] then Inl RuntimeError
      else Inr (map (\<lambda>s. s @ replicate (max_length sequences - length s) padding_value)
                    sequences))"

text \<open>
  \<open>NTPT5.prepare_input\<close>, lines 149 to 168. The batch has the keys \<open>input_ids\<close> and
  \<open>attention_mask\<close>, perhaps \<open>labels\<close>, and \<open>immediate_next_title\<close>; the model contributes
  its \<open>training\<close> flag and the \<open>pad_token_id\<close> of its tokenizer. Moving a tensor to a
  device does not change its values.
\<close>

record t5_batch =
  input_ids :: "int list list"
  attention_mask :: "int list list"
  lm_labels :: "int list list option"
  immediate_next_title :: "string list"

record t5_input_dict =
  prepared_input_ids :: "int list list"
  prepared_attention_mask :: "int list list"
  prepared_labels :: "int list list option"
  prepared_immediate_next_title :: "string list option"

definition ignore_pad :: "int \<Rightarrow> int list list \<Rightarrow> int list list" where
  "ignore_pad pad_token_id padded = map (map (\<lambda>x. if x = pad_token_id then - 100 else x)) padded"

definition NTPT5_prepare_input :: "bool \<Rightarrow> int \<Rightarrow> t5_batch \<Rightarrow> py_error + t5_input_dict" where
  "NTPT5_prepare_input training pad_token_id batch =
     (case pad_sequence (input_ids batch) pad_token_id of
        Inl e \<Rightarrow> Inl e
      | Inr padded_ids \<Rightarrow>
         (case pad_sequence (attention_mask batch) pad_token_id of
            Inl e \<Rightarrow> Inl e
          | Inr padded_mask \<Rightarrow>
             (case (case lm_labels batch of
                      None \<Rightarrow> Inr None
                    | Some label_seqs \<Rightarrow>
                       (case pad_sequence label_seqs pad_token_id of
                          Inl e \<Rightarrow> Inl e
                        | Inr padded \<Rightarrow> Inr (Some (ignore_pad pad_token_id padded)))) of
                Inl e \<Rightarrow> Inl e
              | Inr new_labels \<Rightarrow>
                  Inr \<lparr>prepared_input_ids = padded_ids,
                       prepared_attention_mask = padded_mask,
                       prepared_labels = new_labels,
                       prepared_immediate_next_title =
                         (if \<not> training then Some (immediate_next_title batch) else None)\<rparr>)))"

text \<open>
  \<open>padded_to pad sequences out\<close>: \<open>out\<close> is \<open>sequences\<close> with every sequence extended by
  \<open>pad\<close> to one common length, which is the length of a longest sequence of the batch.
\<close>

definition padded_to :: "int \<Rightarrow> int list list \<Rightarrow> int list list \<Rightarrow> bool" where
  "padded_to pad sequences out \<longleftrightarrow>
     length out = length sequences
     \<and> (\<exists>n. (\<forall>s \<in> set sequences. length s \<le> n) \<and> (\<exists>s \<in> set sequences. length s = n)
          \<and> (\<forall>i < length sequences. length (out ! i) = n
                \<and> take (length (sequences ! i)) (out ! i) = sequences ! i
                \<and> (\<forall>p. length (sequences ! i) \<le> p \<and> p < n \<longrightarrow> out ! i ! p = pad)))"

section \<open>t5.py: the evaluation step\<close>

text \<open>
  \<open>NTPT5.valid_step\<close>, lines 176 to 200, from the similarity matrix on. The forward pass,
  the beam search, the decoding and the sentence encoder are tensor functions outside
  these sources: their outcome is the matrix \<open>sim\<close>, one row per generated candidate and
  one column per label of the vocabulary, over any linearly ordered type of values, and
  the loss \<open>val_loss\<close>.

  \<open>argmax\<close> along a row gives the index of the first maximal entry; the scan keeps the
  best index and value seen so far. On a matrix without columns torch raises
  \<open>IndexError\<close>.
\<close>

fun argmax_scan :: "'a::linorder list \<Rightarrow> nat \<Rightarrow> nat \<Rightarrow> 'a \<Rightarrow> nat" where
  "argmax_scan [] i best v = best"
| "argmax_scan (x # xs) i best v =
     (if v < x then argmax_scan xs (Suc i) i x else argmax_scan xs (Suc i) best v)"

definition row_argmax :: "'a::linorder list \<Rightarrow> nat" where
  "row_argmax row = (case row of [] \<Rightarrow> 0 | x # xs \<Rightarrow> argmax_scan xs 1 0 x)"

definition argmax_axis1 :: "nat \<Rightarrow> 'a::linorder list list \<Rightarrow> py_error + nat list" where
  "argmax_axis1 columns sim =
     (if columns = 0 then Inl IndexError else Inr (map row_argmax sim))"

text \<open>
  \<open>self.config.all_unique_labels[sim.argmax(axis=1)]\<close>. A numpy array indexed by the index
  tensor gives the array of the labels at these indices (\<open>IndexError\<close> for an index out
  of range). A Python list accepts a tensor as index only when it has a single element,
  and then gives that one label, a string; otherwise it raises \<open>TypeError\<close>.
\<close>

datatype mapped = LabelArray "string list" | OneLabel string

definition index_labels :: "label_seq \<Rightarrow> nat list \<Rightarrow> py_error + mapped" where
  "index_labels labels idx =
     (case labels of
        NpArray ls \<Rightarrow>
          (if \<forall>i \<in> set idx. i < length ls then Inr (LabelArray (map ((!) ls) idx))
           else Inl IndexError)
      | PyList ls \<Rightarrow>
          (case idx of
             [i] \<Rightarrow> (if i < length ls then Inr (OneLabel (ls ! i)) else Inl IndexError)
           | _ \<Rightarrow> Inl TypeError))"

definition mapped_predictions ::
  "NTPT5Config \<Rightarrow> 'a::linorder list list \<Rightarrow> py_error + mapped" where
  "mapped_predictions config sim =
     (case argmax_axis1 (length (elements (all_unique_labels config))) sim of
        Inl e \<Rightarrow> Inl e
      | Inr idx \<Rightarrow> index_labels (all_unique_labels config) idx)"

text \<open>
  The slice \<open>[j * k : (j + 1) * k]\<close> for natural \<open>j\<close> and \<open>k\<close>, and \<open>truth in\<close> that slice:
  membership in an array of labels, and the substring test in a string.
\<close>

definition py_slice :: "'a list \<Rightarrow> nat \<Rightarrow> nat \<Rightarrow> 'a list" where
  "py_slice xs start stop = take (stop - start) (drop start xs)"

fun starts_with :: "'a list \<Rightarrow> 'a list \<Rightarrow> bool" where
  "starts_with s [] = True"
| "starts_with [] (c # sub) = False"
| "starts_with (d # s) (c # sub) = (d = c \<and> starts_with s sub)"

fun str_contains :: "string \<Rightarrow> string \<Rightarrow> bool" where
  "str_contains [] sub = (sub = [])"
| "str_contains (d # s) sub = (starts_with (d # s) sub \<or> str_contains s sub)"

definition truth_in_block :: "mapped \<Rightarrow> nat \<Rightarrow> nat \<Rightarrow> string \<Rightarrow> bool" where
  "truth_in_block predictions k j truth =
     (case predictions of
        LabelArray ls \<Rightarrow> truth \<in> set (py_slice ls (j * k) ((j + 1) * k))
      | OneLabel s \<Rightarrow> str_contains (py_slice s (j * k) ((j + 1) * k)) truth)"

text \<open>The sum over \<open>enumerate(target_text)\<close>, from the index \<open>j\<close> on.\<close>

fun count_matches :: "mapped \<Rightarrow> nat \<Rightarrow> nat \<Rightarrow> string list \<Rightarrow> nat" where
  "count_matches predictions k j [] = 0"
| "count_matches predictions k j (truth # rest) =
     (if truth_in_block predictions k j truth then 1 else 0)
       + count_matches predictions k (Suc j) rest"

definition valid_step ::
  "NTPT5Config \<Rightarrow> 'a::linorder list list \<Rightarrow> 'l \<Rightarrow> string list \<Rightarrow> py_error + nat \<times> 'l" where
  "valid_step config sim val_loss target_text =
     (case mapped_predictions config sim of
        Inl e \<Rightarrow> Inl e
      | Inr predictions \<Rightarrow>
          Inr (count_matches predictions (num_return_sequences config) 0 target_text, val_loss))"

section \<open>sentence\_encoders.py: chunked encoding\<close>

text \<open>
  \<open>dataset.iter(batch_size)\<close> yields the rows of the dataset in order, \<open>batch_size\<close> at a
  time, the last batch holding what is left; a dataset without rows yields nothing.
\<close>

function dataset_iter :: "nat \<Rightarrow> 'a list \<Rightarrow> 'a list list" where
  "dataset_iter batch_size rows =
     (if batch_size = 0 \<or> rows = [] then []
      else take batch_size rows # dataset_iter batch_size (drop batch_size rows))"
  by pat_completeness auto
termination
  by (relation "measure (\<lambda>(batch_size, rows). length rows)") auto

text \<open>
  What \<open>encode_batch\<close> returns is a matrix given by its rows, held as a torch tensor
  (\<open>BertSentenceEncoder\<close>) or as a numpy array (\<open>SentenceTransformerEncoder\<close>, whose
  \<open>model.encode\<close> returns an array). \<open>torch.vstack\<close> raises \<open>RuntimeError\<close> on an empty list,
  raises \<open>TypeError\<close> when an element of the list is not a tensor, and otherwise stacks the
  rows of its arguments in order.
\<close>

datatype 'r encoded = Tensor "'r list" | NdArray "'r list"

fun is_tensor :: "'r encoded \<Rightarrow> bool" where
  "is_tensor (Tensor rs) = True"
| "is_tensor (NdArray rs) = False"

fun rows_of :: "'r encoded \<Rightarrow> 'r list" where
  "rows_of (Tensor rs) = rs"
| "rows_of (NdArray rs) = rs"

definition torch_vstack :: "'r encoded list \<Rightarrow> py_error + 'r list" where
  "torch_vstack outputs =
     (if outputs = [] then Inl RuntimeError
      else if \<exists>out \<in> set outputs. \<not> is_tensor out then Inl TypeError
      else Inr (concat (map rows_of outputs)))"

text \<open>
  \<open>SentenceEncoder.__call__\<close>, lines 23 to 40. The abstract method \<open>encode_batch\<close> is a
  parameter, and the batch size is a natural number. The arguments of \<open>tqdm\<close> are
  evaluated before the first batch is drawn, so a batch size of zero raises
  \<open>ZeroDivisionError\<close> in \<open>ceil(dataset.num_rows / self.batch_size)\<close>.
\<close>

definition SentenceEncoder_call ::
  "nat \<Rightarrow> ('s list \<Rightarrow> 'r encoded) \<Rightarrow> 's list \<Rightarrow> py_error + 'r list" where
  "SentenceEncoder_call batch_size encode_batch sentences =
     (if batch_size = 0 then Inl ZeroDivisionError
      else torch_vstack (map encode_batch (dataset_iter batch_size sentences)))"

text \<open>
  An \<open>encode_batch\<close> whose rows depend on the chunk, as those of
  \<open>BertSentenceEncoder.encode_batch\<close> (lines 106 to 116) do: the tokenizer pads the
  sentences of a chunk to the longest of them (\<open>padding=True\<close>) and the token fusion runs
  over all positions, the padded ones included. Here the row of a sentence is the number
  of positions of its padded chunk.
\<close>

definition padded_length_encoder :: "string list \<Rightarrow> nat encoded" where
  "padded_length_encoder batch_sentences =
     Tensor (map (\<lambda>sentence. max_length batch_sentences) batch_sentences)"

section \<open>Shape derivation\<close>

lemma spec_pool_eq: "spec_pool x = maxpool_out 2 1 2 x"
proof -
  have "(of_int (x - (2 - 1) - 1) :: rat) / 2 = of_int (x - 2) / of_int 2"
    by simp
  then have "\<lfloor>(of_int (x - (2 - 1) - 1) :: rat) / 2\<rfloor> = (x - 2) div 2"
    by (simp only: floor_divide_of_int_eq)
  then show ?thesis
    by (simp add: spec_pool_def maxpool_out_def)
qed

lemma dim_loop_foldl: "dim_loop stages s = foldl spec_stage s stages"
proof (induction stages s rule: dim_loop.induct)
  case (1 h w c)
  show ?case by simp
next
  case (2 c_in c_out rest h w c)
  then show ?case by (simp add: spec_stage_def spec_pool_eq)
qed


text \<open>
  C1. The flattened output dimension that construction computes is the product
  \<open>h * w * c\<close> of the specification's shape derivation (height \<open>max_seq_len\<close>, width the
  number of labels, one channel; per stage both sizes go through
  \<open>floor((old - (kernel - 1) - 1) / stride) + 1\<close> with kernel 2 and stride 2, and the
  channels become the stage's output channels), and the linear head of
  \<open>CNNModelForSequenceClassification\<close> is built with exactly this input width and with
  the label count as output width. Construction returns whenever the constructor of the
  encoder does.
\<close>

theorem output_dim_is_spec_product:
  assumes "CNNEncoder (cnn_encoder_params config) = Inr enc"
  shows "\<exists>m. CNNModelForSequenceClassification_init CNNEncoder config = Inr m
           \<and> cnn_encoder m = enc
           \<and> output_dim m =
               spec_flat_dim (max_seq_len config) (int (dict_len (label2id config)))
                 (zip (input_dims (cnn_encoder_params config))
                      (output_dims (cnn_encoder_params config)))
           \<and> head_in_features m = output_dim m
           \<and> head_out_features m = int (dict_len (label2id config))"
  using assms
  by (simp add: CNNModelForSequenceClassification_init_def CNNModel_init_def
      compute_output_dim_def spec_flat_dim_def dim_loop_foldl CNNModel.extend_def
      CNNModelForSequenceClassification.fields_def)

theorem output_dim_is_spec_product_witness:
  "CNNModelForSequenceClassification_init CNNEncoder_init
     \<lparr>cnn_encoder_params = \<lparr>input_dims = [1, 64], output_dims = [64, 10], kernel_sizes = [7, 5]\<rparr>,
      max_seq_len = 100,
      label2id = [(''a'', 0), (''b'', 1), (''c'', 2), (''d'', 3)]\<rparr>
   = Inr \<lparr>cnn_encoder = \<lparr>input_dims = [1, 64], output_dims = [64, 10], kernel_sizes = [7, 5]\<rparr>,
          output_dim = 250, head_in_features = 250, head_out_features = 4\<rparr>"
  using output_dim_is_spec_product [of CNNEncoder_init
     "\<lparr>cnn_encoder_params = \<lparr>input_dims = [1, 64], output_dims = [64, 10], kernel_sizes = [7, 5]\<rparr>,
      max_seq_len = 100,
      label2id = [(''a'', 0), (''b'', 1), (''c'', 2), (''d'', 3)]\<rparr>"
     "\<lparr>input_dims = [1, 64], output_dims = [64, 10], kernel_sizes = [7, 5]\<rparr>"]
  by (simp add: CNNEncoder_init_def CNNModelForSequenceClassification_init_def
      CNNModel_init_def compute_output_dim_def maxpool_out_def dict_len_def
      CNNModel.extend_def CNNModelForSequenceClassification.fields_def)



section \<open>The image representation\<close>

lemma np_index_bound: "np_index n i = Inr j \<Longrightarrow> j < n"
  by (auto simp: np_index_def split: if_splits)

lemma column_of_bound: "column_of d n t = Some j \<Longrightarrow> j < n"
  by (auto simp: column_of_def dest: np_index_bound split: sum.splits)

lemma count_rows_running:
  assumes "\<forall>t \<in> set ts. column_of d (length acc) t \<noteq> None"
  shows "\<exists>rows. count_rows d ts acc = Inr rows \<and> length rows = length ts
           \<and> (\<forall>i < length ts. length (rows ! i) = length acc
                \<and> (\<forall>j < length acc. rows ! i ! j =
                      acc ! j + occurrences d (length acc) (take (Suc i) ts) j))"
  using assms
proof (induction ts arbitrary: acc)
  case Nil
  show ?case by simp
next
  case (Cons t ts)
  from Cons.prems obtain j0 where j0: "column_of d (length acc) t = Some j0"
    by auto
  then obtain v where v: "dict_get d t = Inr v" "np_index (length acc) v = Inr j0"
    by (auto simp: column_of_def split: sum.splits)
  have j0n: "j0 < length acc" using j0 by (rule column_of_bound)
  let ?acc = "acc[j0 := acc ! j0 + 1]"
  have "\<forall>t \<in> set ts. column_of d (length ?acc) t \<noteq> None"
    using Cons.prems by simp
  from Cons.IH [OF this] obtain rows where rows: "count_rows d ts ?acc = Inr rows"
    "length rows = length ts"
    "\<forall>i < length ts. length (rows ! i) = length ?acc
        \<and> (\<forall>j < length ?acc. rows ! i ! j =
              ?acc ! j + occurrences d (length ?acc) (take (Suc i) ts) j)"
    by blast
  have res: "count_rows d (t # ts) acc = Inr (?acc # rows)"
    using v rows(1) by simp
  have step: "\<And>j seen. j < length acc \<Longrightarrow>
      ?acc ! j + occurrences d (length acc) seen j = acc ! j + occurrences d (length acc) (t # seen) j"
    using j0 j0n by (auto simp: occurrences_def nth_list_update)
  have "\<forall>i < length (t # ts). length ((?acc # rows) ! i) = length acc
        \<and> (\<forall>j < length acc. (?acc # rows) ! i ! j =
              acc ! j + occurrences d (length acc) (take (Suc i) (t # ts)) j)"
  proof (intro allI impI)
    fix i assume i: "i < length (t # ts)"
    show "length ((?acc # rows) ! i) = length acc
        \<and> (\<forall>j < length acc. (?acc # rows) ! i ! j =
              acc ! j + occurrences d (length acc) (take (Suc i) (t # ts)) j)"
    proof (cases i)
      case 0
      have "\<And>j. j < length acc \<Longrightarrow> ?acc ! j = acc ! j + occurrences d (length acc) [t] j"
        using step [of _ "[]"] by (simp add: occurrences_def)
      then show ?thesis using 0 by simp
    next
      case (Suc k)
      then have k: "k < length ts" using i by simp
      from rows(3) k have a: "length (rows ! k) = length acc"
        and b: "\<forall>j < length acc. rows ! k ! j = ?acc ! j + occurrences d (length acc) (take (Suc k) ts) j"
        by auto
      show ?thesis using Suc a b step by simp
    qed
  qed
  with res rows(2) show ?case by simp
qed

lemma count_rows_Inr_resolved:
  "count_rows d ts acc = Inr rows \<Longrightarrow> \<forall>t \<in> set ts. column_of d (length acc) t \<noteq> None"
proof (induction ts arbitrary: acc rows)
  case Nil
  show ?case by simp
next
  case (Cons t ts)
  from Cons.prems obtain v j rows' where v: "dict_get d t = Inr v" "np_index (length acc) v = Inr j"
    "count_rows d ts (acc[j := acc ! j + 1]) = Inr rows'"
    by (auto split: sum.splits)
  from Cons.IH [OF v(3)] have "\<forall>t \<in> set ts. column_of d (length acc) t \<noteq> None" by simp
  moreover have "column_of d (length acc) t \<noteq> None" using v by (simp add: column_of_def)
  ultimately show ?case by simp
qed

lemma occurrences_mono:
  "occurrences d n (take i ts) j \<le> occurrences d n (take (Suc i) ts) j"
proof (cases "i < length ts")
  case True
  then show ?thesis by (simp add: occurrences_def take_Suc_conv_app_nth)
next
  case False
  then show ?thesis by simp
qed

lemma occurrences_nonneg: "0 \<le> occurrences d n seen j"
  by (simp add: occurrences_def)

lemma occurrences_le_length: "occurrences d n seen j \<le> int (length seen)"
  by (simp add: occurrences_def)

lemma valid_ids_column:
  assumes "valid_label_ids d" "t \<in> fst ` set d"
  shows "column_of d (dict_len d) t \<noteq> None"
proof -
  from assms(2) obtain v where v: "map_of d t = Some v"
    by (metis domD dom_map_of_conv_image_fst)
  then have "v \<in> set (map snd d)" by (force dest: map_of_SomeD)
  with assms(1) have "- int (length d) \<le> v \<and> v < int (length d)"
    by (auto simp: valid_label_ids_def)
  then show ?thesis using v
    by (auto simp: column_of_def dict_get_def np_index_def dict_len_def)
qed

lemma column_in_keys: "column_of d n t \<noteq> None \<Longrightarrow> t \<in> fst ` set d"
  by (auto simp: column_of_def dict_get_def split: option.splits dest: map_of_SomeD intro: rev_image_eqI)

lemma padded_counts_ok:
  assumes ne: "ts \<noteq> []" and len: "int (length ts) \<le> max_seq_len config"
    and res: "\<forall>t \<in> set ts. column_of (label2id config) (dict_len (label2id config)) t \<noteq> None"
  shows "\<exists>rows. count_rows (label2id config) ts (replicate (dict_len (label2id config)) 0) = Inr rows
           \<and> padded_counts config ts =
               Inr (rows @ replicate (nat (max_seq_len config - int (length ts)))
                                     (replicate (dict_len (label2id config)) 0))
           \<and> length rows = length ts
           \<and> (\<forall>i < length ts. length (rows ! i) = dict_len (label2id config)
                \<and> (\<forall>j < dict_len (label2id config). rows ! i ! j =
                      occurrences (label2id config) (dict_len (label2id config)) (take (Suc i) ts) j))"
proof -
  let ?n = "dict_len (label2id config)"
  have "\<forall>t \<in> set ts. column_of (label2id config) (length (replicate ?n (0::int))) t \<noteq> None"
    using res by simp
  from count_rows_running [OF this] obtain rows where
    rows: "count_rows (label2id config) ts (replicate ?n 0) = Inr rows" "length rows = length ts"
    and cells: "\<forall>i < length ts. length (rows ! i) = ?n
        \<and> (\<forall>j < ?n. rows ! i ! j = occurrences (label2id config) ?n (take (Suc i) ts) j)"
    by auto
  have "rows \<noteq> []" using rows(2) ne by auto
  moreover have "length (hd rows) = ?n"
    using cells ne rows(2) \<open>rows \<noteq> []\<close> by (simp add: hd_conv_nth)
  ultimately have "padded_counts config ts =
      Inr (rows @ replicate (nat (max_seq_len config - int (length ts))) (replicate ?n 0))"
    using rows len by (simp add: padded_counts_def np_vstack_def np_pad_rows_def)
  with rows cells show ?thesis by blast
qed

lemma padded_counts_Inr_conds:
  assumes "padded_counts config ts = Inr counts"
  shows "ts \<noteq> [] \<and> int (length ts) \<le> max_seq_len config
         \<and> (\<forall>t \<in> set ts. column_of (label2id config) (dict_len (label2id config)) t \<noteq> None)"
proof -
  from assms obtain rows where rows:
    "count_rows (label2id config) ts (replicate (dict_len (label2id config)) 0) = Inr rows"
    "rows \<noteq> []" "\<not> max_seq_len config - int (length rows) < 0"
    by (auto simp: padded_counts_def np_vstack_def np_pad_rows_def split: sum.splits if_splits)
  have r: "\<forall>t \<in> set ts. column_of (label2id config) (dict_len (label2id config)) t \<noteq> None"
    using count_rows_Inr_resolved [OF rows(1)] by simp
  from count_rows_running [of ts "label2id config" "replicate (dict_len (label2id config)) 0"] r rows(1)
  have "length rows = length ts" by auto
  with rows r show ?thesis by auto
qed

lemma fold_max_Max: "fold max xs (x::int) = Max (set (x # xs))"
  by (rule Max.set_eq_fold [symmetric])

lemma np_max_bounds:
  assumes "concat a \<noteq> []"
  shows "\<exists>m. np_max a = Inr m \<and> m \<in> set (concat a) \<and> (\<forall>x \<in> set (concat a). x \<le> m)"
proof -
  from assms obtain x xs where c: "concat a = x # xs" by (cases "concat a") auto
  have "np_max a = Inr (Max (set (x # xs)))"
    by (simp add: np_max_def c fold_max_Max del: set_simps)
  moreover have "Max (set (x # xs)) \<in> set (x # xs)" by (rule Max_in) auto
  moreover have "\<forall>y \<in> set (x # xs). y \<le> Max (set (x # xs))" by (auto intro: Max_ge)
  ultimately show ?thesis using c by auto
qed

lemma rows_entries:
  assumes "length rows = length ts" 
    and "\<forall>i < length ts. length (rows ! i) = n \<and> (\<forall>j < n. rows ! i ! j = occurrences d n (take (Suc i) ts) j)"
    and "x \<in> set (concat (rows @ replicate k (replicate n 0)))"
  shows "0 \<le> x"
proof -
  from assms(3) consider (a) row where "row \<in> set rows" "x \<in> set row" | (b) "x = 0"
    by auto
  then show ?thesis
  proof cases
    case a
    then obtain i j where "i < length rows" "rows ! i = row" "j < length row" "row ! j = x"
      by (metis in_set_conv_nth)
    then show ?thesis using assms(1,2) by (auto simp: occurrences_nonneg)
  next
    case b
    then show ?thesis by simp
  qed
qed

lemma image_of_titles_ok:
  assumes ne: "ts \<noteq> []" and len: "int (length ts) \<le> max_seq_len config"
    and res: "\<forall>t \<in> set ts. column_of (label2id config) (dict_len (label2id config)) t \<noteq> None"
  shows "\<exists>counts m. padded_counts config ts = Inr counts \<and> np_max counts = Inr m \<and> 1 \<le> m
           \<and> (\<forall>x \<in> set (concat counts). 0 \<le> x \<and> x \<le> m)
           \<and> image_of_titles config ts =
               Inr [map (map (\<lambda>x. Finite (of_int x / of_int m))) counts]"
proof -
  let ?d = "label2id config" and ?n = "dict_len (label2id config)"
  let ?pad = "replicate (nat (max_seq_len config - int (length ts))) (replicate ?n (0::int))"
  from padded_counts_ok [OF ne len res] obtain rows where
    pc: "padded_counts config ts = Inr (rows @ ?pad)" and lr: "length rows = length ts"
    and cells: "\<forall>i < length ts. length (rows ! i) = ?n
        \<and> (\<forall>j < ?n. rows ! i ! j = occurrences ?d ?n (take (Suc i) ts) j)"
    by blast
  obtain t ts' where ts: "ts = t # ts'" using ne by (cases ts) auto
  with res obtain j0 where j0: "column_of ?d ?n t = Some j0" by auto
  then have j0n: "j0 < ?n" by (rule column_of_bound)
  have "rows ! 0 ! j0 = 1"
    using cells j0n j0 ts by (simp add: occurrences_def)
  moreover have "rows ! 0 \<in> set rows" "j0 < length (rows ! 0)"
    using lr ts cells j0n by auto
  ultimately have one: "1 \<in> set (concat (rows @ ?pad))"
    by (metis UnI1 concat_append in_set_conv_nth set_append set_concat UN_I)
  then have "concat (rows @ ?pad) \<noteq> []" by (metis empty_iff empty_set)
  from np_max_bounds [OF this] obtain m where
    m: "np_max (rows @ ?pad) = Inr m" "\<forall>x \<in> set (concat (rows @ ?pad)). x \<le> m"
    by blast
  from m(2) one have m1: "1 \<le> m" by blast
  have nonneg: "\<forall>x \<in> set (concat (rows @ ?pad)). 0 \<le> x"
    using rows_entries [OF lr cells] by blast
  have "image_of_titles config ts =
          Inr [map (map (\<lambda>x. Finite (of_int x / of_int m))) (rows @ ?pad)]"
    using pc m(1) m1 by (simp add: image_of_titles_def float_div_def)
  with pc m m1 nonneg show ?thesis by blast
qed

lemma image_of_titles_iff:
  "(\<exists>img. image_of_titles config ts = Inr img) \<longleftrightarrow>
     ts \<noteq> [] \<and> int (length ts) \<le> max_seq_len config
     \<and> (\<forall>t \<in> set ts. column_of (label2id config) (dict_len (label2id config)) t \<noteq> None)"
proof
  assume "\<exists>img. image_of_titles config ts = Inr img"
  then obtain counts where "padded_counts config ts = Inr counts"
    by (auto simp: image_of_titles_def split: sum.splits)
  then show "ts \<noteq> [] \<and> int (length ts) \<le> max_seq_len config
     \<and> (\<forall>t \<in> set ts. column_of (label2id config) (dict_len (label2id config)) t \<noteq> None)"
    by (rule padded_counts_Inr_conds)
next
  assume "ts \<noteq> [] \<and> int (length ts) \<le> max_seq_len config
     \<and> (\<forall>t \<in> set ts. column_of (label2id config) (dict_len (label2id config)) t \<noteq> None)"
  then show "\<exists>img. image_of_titles config ts = Inr img"
    using image_of_titles_ok [of ts config] by blast
qed

lemma padded_counts_shape:
  assumes "padded_counts config ts = Inr counts"
  shows "length counts = nat (max_seq_len config)
         \<and> (\<forall>row \<in> set counts. length row = dict_len (label2id config))"
proof -
  let ?n = "dict_len (label2id config)"
  from padded_counts_Inr_conds [OF assms] have c: "ts \<noteq> []" "int (length ts) \<le> max_seq_len config"
    "\<forall>t \<in> set ts. column_of (label2id config) ?n t \<noteq> None"
    by auto
  from padded_counts_ok [OF c] assms obtain rows where
    eq: "counts = rows @ replicate (nat (max_seq_len config - int (length ts))) (replicate ?n 0)"
    and lr: "length rows = length ts"
    and cells: "\<forall>i < length ts. length (rows ! i) = ?n"
    by auto
  have "\<forall>row \<in> set rows. length row = ?n"
    using lr cells by (metis in_set_conv_nth)
  then have "\<forall>row \<in> set counts. length row = ?n"
    using eq by auto
  moreover have "length counts = nat (max_seq_len config)"
    using eq lr c(2) by simp
  ultimately show ?thesis by simp
qed

lemma image_of_titles_shape:
  assumes "image_of_titles config ts = Inr img"
  shows "length img = 1 \<and> (\<forall>ch \<in> set img. length ch = nat (max_seq_len config)
           \<and> (\<forall>row \<in> set ch. length row = dict_len (label2id config)))"
proof -
  from assms obtain counts m where pc: "padded_counts config ts = Inr counts"
    and img: "img = [map (map (\<lambda>x. float_div x m)) counts]"
    by (auto simp: image_of_titles_def split: sum.splits)
  from padded_counts_shape [OF pc] img show ?thesis by auto
qed

lemma image_reprs_loop_iff:
  "(\<exists>imgs. image_reprs_loop config b = Inr imgs) \<longleftrightarrow>
     (\<forall>ts \<in> set b. \<exists>img. image_of_titles config ts = Inr img)"
  by (induction b) (auto split: sum.splits)

lemma image_reprs_loop_shape:
  "image_reprs_loop config b = Inr imgs \<Longrightarrow>
     length imgs = length b \<and> (\<forall>img \<in> set imgs. \<exists>ts \<in> set b. image_of_titles config ts = Inr img)"
  by (induction b arbitrary: imgs) (auto split: sum.splits)

lemma column_of_keys_iff:
  assumes "valid_label_ids d"
  shows "column_of d (dict_len d) t \<noteq> None \<longleftrightarrow> t \<in> fst ` set d"
  using valid_ids_column [OF assms] column_in_keys by blast

text \<open>
  C4. For a non-empty title sequence of length at most \<open>max_seq_len\<close> whose titles are all
  keys of the label vocabulary (a vocabulary whose ids index its columns), the matrix
  built by \<open>prepare_input\<close> has \<open>max_seq_len\<close> rows of \<open>len(label2id)\<close> entries; row \<open>i\<close>
  of the unpadded part holds, in column \<open>j\<close>, the number of titles among positions
  \<open>0..i\<close> with label \<open>j\<close>; each column is non-decreasing over the unpadded rows; each
  padded row is zero; and after the division by the maximum of the matrix every value
  lies in \<open>[0, 1]\<close>.
\<close>

theorem image_repr_running_counts:
  assumes "seq \<noteq> []"
    and "int (length seq) \<le> max_seq_len config"
    and "set seq \<subseteq> fst ` set (label2id config)"
    and "valid_label_ids (label2id config)"
  shows "\<exists>counts m. padded_counts config seq = Inr counts \<and> np_max counts = Inr m
           \<and> image_of_titles config seq = Inr [map (map (\<lambda>x. float_div x m)) counts]
           \<and> length counts = nat (max_seq_len config)
           \<and> (\<forall>row \<in> set counts. length row = dict_len (label2id config))
           \<and> (\<forall>i < length seq. \<forall>j < dict_len (label2id config).
                 counts ! i ! j =
                   occurrences (label2id config) (dict_len (label2id config)) (take (Suc i) seq) j)
           \<and> (\<forall>i j. Suc i < length seq \<and> j < dict_len (label2id config)
                 \<longrightarrow> counts ! i ! j \<le> counts ! Suc i ! j)
           \<and> (\<forall>i. length seq \<le> i \<and> i < nat (max_seq_len config)
                 \<longrightarrow> counts ! i = replicate (dict_len (label2id config)) 0)
           \<and> (\<forall>row \<in> set counts. \<forall>x \<in> set row. in_unit_range (float_div x m))"
proof -
  let ?d = "label2id config" and ?n = "dict_len (label2id config)"
  let ?pad = "replicate (nat (max_seq_len config - int (length seq))) (replicate ?n (0::int))"
  have res: "\<forall>t \<in> set seq. column_of ?d ?n t \<noteq> None"
    using assms(3) valid_ids_column [OF assms(4)] by blast
  from padded_counts_ok [OF assms(1,2) res] obtain rows where
    pc: "padded_counts config seq = Inr (rows @ ?pad)" and lr: "length rows = length seq"
    and cells: "\<forall>i < length seq. length (rows ! i) = ?n
        \<and> (\<forall>j < ?n. rows ! i ! j = occurrences ?d ?n (take (Suc i) seq) j)"
    by blast
  from image_of_titles_ok [OF assms(1,2) res] pc obtain m where
    m: "np_max (rows @ ?pad) = Inr m" "1 \<le> m"
    and rng: "\<forall>x \<in> set (concat (rows @ ?pad)). 0 \<le> x \<and> x \<le> m"
    and img: "image_of_titles config seq =
                Inr [map (map (\<lambda>x. Finite (of_int x / of_int m))) (rows @ ?pad)]"
    by auto
  have fd: "\<And>x. float_div x m = Finite (of_int x / of_int m)"
    using m(2) by (simp add: float_div_def)
  have a: "image_of_titles config seq = Inr [map (map (\<lambda>x. float_div x m)) (rows @ ?pad)]"
    using img by (simp add: fd)
  have b: "length (rows @ ?pad) = nat (max_seq_len config)"
    using lr assms(2) by simp
  have c: "\<forall>row \<in> set (rows @ ?pad). length row = ?n"
    using padded_counts_shape [OF pc] by simp
  have d: "\<forall>i < length seq. \<forall>j < ?n.
             (rows @ ?pad) ! i ! j = occurrences ?d ?n (take (Suc i) seq) j"
    using cells lr by (simp add: nth_append)
  have e: "\<forall>i j. Suc i < length seq \<and> j < ?n \<longrightarrow> (rows @ ?pad) ! i ! j \<le> (rows @ ?pad) ! Suc i ! j"
  proof (intro allI impI)
    fix i j assume ij: "Suc i < length seq \<and> j < ?n"
    then have "(rows @ ?pad) ! i ! j = occurrences ?d ?n (take (Suc i) seq) j"
      and "(rows @ ?pad) ! Suc i ! j = occurrences ?d ?n (take (Suc (Suc i)) seq) j"
      using d by auto
    then show "(rows @ ?pad) ! i ! j \<le> (rows @ ?pad) ! Suc i ! j"
      using occurrences_mono [of ?d ?n "Suc i" seq j] by simp
  qed
  have f: "\<forall>i. length seq \<le> i \<and> i < nat (max_seq_len config) \<longrightarrow> (rows @ ?pad) ! i = replicate ?n 0"
    using lr by (auto simp: nth_append)
  have g: "\<forall>row \<in> set (rows @ ?pad). \<forall>x \<in> set row. in_unit_range (float_div x m)"
  proof (intro ballI)
    fix row x assume "row \<in> set (rows @ ?pad)" "x \<in> set row"
    then have "x \<in> set (concat (rows @ ?pad))" by (metis UN_I set_concat)
    with rng have "0 \<le> x" "x \<le> m" by auto
    then show "in_unit_range (float_div x m)"
      using m(2) by (simp add: fd in_unit_range_def)
  qed
  from pc m(1) a b c d e f g show ?thesis by blast
qed

theorem image_repr_running_counts_witness:
  "padded_counts demo_config [''a'', ''b'', ''a''] = Inr [[1, 0, 0], [1, 1, 0], [2, 1, 0], [0, 0, 0]]
   \<and> image_of_titles demo_config [''a'', ''b'', ''a''] =
       Inr [[[Finite (1 / 2), Finite 0, Finite 0],
             [Finite (1 / 2), Finite (1 / 2), Finite 0],
             [Finite 1, Finite (1 / 2), Finite 0],
             [Finite 0, Finite 0, Finite 0]]]"
  using image_repr_running_counts [of "[''a'', ''b'', ''a'']" demo_config]
  by (simp add: demo_config_def padded_counts_def image_of_titles_def dict_len_def dict_get_def
      np_index_def np_vstack_def np_pad_rows_def np_max_def float_div_def valid_label_ids_def)

text \<open>
  C2 (as stated, refuted). The title sequences whose counts are all zero do not reach the
  normalisation: on the empty sequence \<open>prepare_input\<close> raises \<open>ValueError\<close> (from
  \<open>np.vstack\<close>), and on a sequence of a title that is not in the vocabulary it raises
  \<open>KeyError\<close>; in neither case is an all-zero tensor returned.
\<close>

theorem degenerate_image_counterexample:
  "NTPCNNModel_prepare_input demo_config \<lparr>titles = [[]], label_ids = None\<rparr> = Inl ValueError
   \<and> NTPCNNModel_prepare_input demo_config \<lparr>titles = [[''z'']], label_ids = None\<rparr> = Inl KeyError"
  by (simp add: NTPCNNModel_prepare_input_def image_of_titles_def padded_counts_def
      np_vstack_def demo_config_def dict_get_def)

lemma count_rows_absent_title:
  assumes "\<forall>u \<in> set pre. column_of d (length acc) u \<noteq> None" and "t \<notin> fst ` set d"
  shows "count_rows d (pre @ t # post) acc = Inl KeyError"
  using assms(1)
proof (induction pre arbitrary: acc)
  case Nil
  have "map_of d t = None" using assms(2) by (simp add: map_of_eq_None_iff)
  then show ?case by (simp add: dict_get_def)
next
  case (Cons u pre)
  from Cons.prems obtain v j where v: "dict_get d u = Inr v" "np_index (length acc) v = Inr j"
    by (auto simp: column_of_def split: sum.splits)
  have "\<forall>w \<in> set pre. column_of d (length (acc[j := acc ! j + 1])) w \<noteq> None"
    using Cons.prems by simp
  from Cons.IH [OF this] v show ?case by simp
qed

lemma image_of_titles_absent_title:
  assumes "\<forall>u \<in> set pre. column_of (label2id config) (dict_len (label2id config)) u \<noteq> None"
    and "t \<notin> fst ` set (label2id config)"
  shows "image_of_titles config (pre @ t # post) = Inl KeyError"
proof -
  have "count_rows (label2id config) (pre @ t # post) (replicate (dict_len (label2id config)) 0)
          = Inl KeyError"
    using assms by (intro count_rows_absent_title) simp_all
  then show ?thesis by (simp add: image_of_titles_def padded_counts_def)
qed

lemma image_reprs_loop_first_error:
  assumes "\<forall>s \<in> set good. \<exists>img. image_of_titles config s = Inr img"
    and "image_of_titles config seq = Inl e"
  shows "image_reprs_loop config (good @ seq # rest) = Inl e"
  using assms(1)
proof (induction good)
  case Nil
  show ?case using assms(2) by simp
next
  case (Cons s good)
  then obtain img where "image_of_titles config s = Inr img" by auto
  with Cons show ?case by simp
qed

lemma image_reprs_loop_nth:
  "image_reprs_loop config b = Inr imgs \<Longrightarrow>
     length imgs = length b \<and> (\<forall>i < length b. image_of_titles config (b ! i) = Inr (imgs ! i))"
proof (induction b arbitrary: imgs)
  case Nil
  then show ?case by simp
next
  case (Cons s b)
  from Cons.prems obtain img imgs' where s: "image_of_titles config s = Inr img"
    "image_reprs_loop config b = Inr imgs'" "imgs = img # imgs'"
    by (auto split: sum.splits)
  from Cons.IH [OF s(2)] s(1,3) show ?case by (auto simp: nth_Cons split: nat.splits)
qed

lemma image_of_titles_Inr_normalised:
  assumes "image_of_titles config seq = Inr img"
  shows "\<exists>counts m. padded_counts config seq = Inr counts \<and> np_max counts = Inr m \<and> 1 \<le> m
           \<and> img = [map (map (\<lambda>x. Finite (of_int x / of_int m))) counts]"
proof -
  from assms obtain counts where pc: "padded_counts config seq = Inr counts"
    by (auto simp: image_of_titles_def split: sum.splits)
  from padded_counts_Inr_conds [OF pc] have "seq \<noteq> []" "int (length seq) \<le> max_seq_len config"
    "\<forall>t \<in> set seq. column_of (label2id config) (dict_len (label2id config)) t \<noteq> None"
    by auto
  from image_of_titles_ok [OF this] pc assms show ?thesis by auto
qed

text \<open>
  C2 (amended). \<open>NTPCNNModel.prepare_input\<close> has no policy for an all-zero image, because
  none reaches the normalisation. Whenever it returns, every image of the batch is the
  padded count matrix of its title sequence divided entry by entry by the maximum of that
  matrix, and this maximum is at least 1: no division by zero and no \<open>nan\<close>. The
  degenerate sequences raise instead: in a batch whose earlier sequences are processed,
  an empty title sequence raises \<open>ValueError\<close> (from \<open>np.vstack\<close>), and a title sequence
  with a title absent from \<open>label2id\<close>, after titles that have a column, raises
  \<open>KeyError\<close>.
\<close>

theorem prepare_input_never_divides_by_zero:
  "(NTPCNNModel_prepare_input config batch = Inr r \<longrightarrow>
      length (image r) = length (titles batch)
      \<and> (\<forall>i < length (titles batch).
            \<exists>counts m. padded_counts config (titles batch ! i) = Inr counts
              \<and> np_max counts = Inr m \<and> 1 \<le> m
              \<and> image r ! i = [map (map (\<lambda>x. Finite (of_int x / of_int m))) counts]))
   \<and> (titles batch = good @ seq # rest
        \<and> (\<forall>s \<in> set good. \<exists>img. image_of_titles config s = Inr img) \<longrightarrow>
          (seq = [] \<longrightarrow> NTPCNNModel_prepare_input config batch = Inl ValueError)
          \<and> (seq = pre @ t # post
               \<and> (\<forall>u \<in> set pre.
                     column_of (label2id config) (dict_len (label2id config)) u \<noteq> None)
               \<and> t \<notin> fst ` set (label2id config) \<longrightarrow>
                 NTPCNNModel_prepare_input config batch = Inl KeyError))"
proof (intro conjI impI)
  assume r: "NTPCNNModel_prepare_input config batch = Inr r"
  then obtain imgs where imgs: "image_reprs_loop config (titles batch) = Inr imgs"
    "image r = imgs"
    by (auto simp: NTPCNNModel_prepare_input_def torch_stack_def split: sum.splits if_splits)
  from image_reprs_loop_nth [OF imgs(1)] imgs(2)
  have len: "length (image r) = length (titles batch)"
    and nth: "\<forall>i < length (titles batch).
                image_of_titles config (titles batch ! i) = Inr (image r ! i)"
    by auto
  show "length (image r) = length (titles batch)" by (rule len)
  show "\<forall>i < length (titles batch).
            \<exists>counts m. padded_counts config (titles batch ! i) = Inr counts
              \<and> np_max counts = Inr m \<and> 1 \<le> m
              \<and> image r ! i = [map (map (\<lambda>x. Finite (of_int x / of_int m))) counts]"
    using nth image_of_titles_Inr_normalised by blast
next
  assume b: "titles batch = good @ seq # rest
        \<and> (\<forall>s \<in> set good. \<exists>img. image_of_titles config s = Inr img)"
    and e: "seq = []"
  have "image_of_titles config seq = Inl ValueError"
    using e by (simp add: image_of_titles_def padded_counts_def np_vstack_def)
  with b have "image_reprs_loop config (titles batch) = Inl ValueError"
    by (simp add: image_reprs_loop_first_error)
  then show "NTPCNNModel_prepare_input config batch = Inl ValueError"
    by (simp add: NTPCNNModel_prepare_input_def)
next
  assume b: "titles batch = good @ seq # rest
        \<and> (\<forall>s \<in> set good. \<exists>img. image_of_titles config s = Inr img)"
    and a: "seq = pre @ t # post
               \<and> (\<forall>u \<in> set pre.
                     column_of (label2id config) (dict_len (label2id config)) u \<noteq> None)
               \<and> t \<notin> fst ` set (label2id config)"
  have "image_of_titles config seq = Inl KeyError"
    using a by (simp add: image_of_titles_absent_title)
  with b have "image_reprs_loop config (titles batch) = Inl KeyError"
    by (simp add: image_reprs_loop_first_error)
  then show "NTPCNNModel_prepare_input config batch = Inl KeyError"
    by (simp add: NTPCNNModel_prepare_input_def)
qed

theorem prepare_input_never_divides_by_zero_witness:
  "NTPCNNModel_prepare_input demo_config \<lparr>titles = [[''c'', ''c'']], label_ids = None\<rparr>
     = Inr \<lparr>image = [[[[Finite 0, Finite 0, Finite (1 / 2)],
                       [Finite 0, Finite 0, Finite 1],
                       [Finite 0, Finite 0, Finite 0],
                       [Finite 0, Finite 0, Finite 0]]]],
            input_labels = None\<rparr>
   \<and> np_max [[0, 0, 1], [0, 0, 2], [0, 0, 0], [0, 0, 0]] = Inr 2
   \<and> NTPCNNModel_prepare_input demo_config \<lparr>titles = [[''a''], []], label_ids = None\<rparr>
       = Inl ValueError
   \<and> NTPCNNModel_prepare_input demo_config \<lparr>titles = [[''a''], [''b'', ''z'', ''c'']], label_ids = None\<rparr>
       = Inl KeyError"
  using prepare_input_never_divides_by_zero [of demo_config
      "\<lparr>titles = [[''c'', ''c'']], label_ids = None\<rparr>"
      "\<lparr>image = [[[[Finite 0, Finite 0, Finite (1 / 2)],
                       [Finite 0, Finite 0, Finite 1],
                       [Finite 0, Finite 0, Finite 0],
                       [Finite 0, Finite 0, Finite 0]]]],
            input_labels = None\<rparr>"]
    prepare_input_never_divides_by_zero [of demo_config
      "\<lparr>titles = [[''a''], []], label_ids = None\<rparr>" _ "[[''a'']]" "[]" "[]"]
    prepare_input_never_divides_by_zero [of demo_config
      "\<lparr>titles = [[''a''], [''b'', ''z'', ''c'']], label_ids = None\<rparr>" _
      "[[''a'']]" "[''b'', ''z'', ''c'']" "[]" "[''b'']" "''z''" "[''c'']"]
  by (simp add: demo_config_def NTPCNNModel_prepare_input_def torch_stack_def padded_counts_def
      image_of_titles_def dict_len_def dict_get_def np_index_def np_vstack_def np_pad_rows_def
      np_max_def float_div_def column_of_def eval_nat_numeral)

text \<open>
  C10 (as stated, refuted). The empty batch has no title sequence that is empty, too long
  or outside the vocabulary, and still \<open>prepare_input\<close> raises on it: \<open>torch.stack\<close>
  rejects the empty list of images.
\<close>

theorem empty_batch_counterexample:
  "NTPCNNModel_prepare_input demo_config \<lparr>titles = [], label_ids = None\<rparr> = Inl RuntimeError"
  by (simp add: NTPCNNModel_prepare_input_def torch_stack_def)

text \<open>
  C10 (amended). For a label vocabulary whose ids index its columns, \<open>prepare_input\<close>
  returns exactly on the non-empty batches whose every title sequence is non-empty, has
  length at most \<open>max_seq_len\<close> and contains only titles of the vocabulary, and raises on
  every other batch; what it returns has the shape
  \<open>(batch_size, 1, max_seq_len, len(label2id))\<close>.
\<close>

theorem NTPCNNModel_prepare_input_defined_iff:
  assumes "valid_label_ids (label2id config)"
  shows "((\<exists>r. NTPCNNModel_prepare_input config batch = Inr r) \<longleftrightarrow>
           titles batch \<noteq> []
           \<and> (\<forall>ts \<in> set (titles batch). ts \<noteq> [] \<and> int (length ts) \<le> max_seq_len config
                 \<and> set ts \<subseteq> fst ` set (label2id config)))
       \<and> (\<forall>r. NTPCNNModel_prepare_input config batch = Inr r \<longrightarrow>
             length (image r) = length (titles batch)
             \<and> (\<forall>img \<in> set (image r). length img = 1
                   \<and> (\<forall>ch \<in> set img. length ch = nat (max_seq_len config)
                         \<and> (\<forall>row \<in> set ch. length row = dict_len (label2id config)))))"
proof (rule conjI)
  have "(\<exists>r. NTPCNNModel_prepare_input config batch = Inr r) \<longleftrightarrow>
          titles batch \<noteq> [] \<and> (\<exists>imgs. image_reprs_loop config (titles batch) = Inr imgs)"
    by (cases "titles batch")
       (auto simp: NTPCNNModel_prepare_input_def torch_stack_def split: sum.splits if_splits)
  also have "\<dots> \<longleftrightarrow> titles batch \<noteq> []
           \<and> (\<forall>ts \<in> set (titles batch). ts \<noteq> [] \<and> int (length ts) \<le> max_seq_len config
                 \<and> set ts \<subseteq> fst ` set (label2id config))"
    unfolding image_reprs_loop_iff image_of_titles_iff
    using column_of_keys_iff [OF assms] by blast
  finally show "(\<exists>r. NTPCNNModel_prepare_input config batch = Inr r) \<longleftrightarrow>
           titles batch \<noteq> []
           \<and> (\<forall>ts \<in> set (titles batch). ts \<noteq> [] \<and> int (length ts) \<le> max_seq_len config
                 \<and> set ts \<subseteq> fst ` set (label2id config))" .
next
  have "length (image r) = length (titles batch)
             \<and> (\<forall>img \<in> set (image r). length img = 1
                   \<and> (\<forall>ch \<in> set img. length ch = nat (max_seq_len config)
                         \<and> (\<forall>row \<in> set ch. length row = dict_len (label2id config))))"
    if r: "NTPCNNModel_prepare_input config batch = Inr r" for r
  proof -
  from r obtain imgs where imgs: "image_reprs_loop config (titles batch) = Inr imgs" "image r = imgs"
    by (auto simp: NTPCNNModel_prepare_input_def torch_stack_def split: sum.splits if_splits)
  from image_reprs_loop_shape [OF imgs(1)] image_of_titles_shape imgs(2)
  show ?thesis
    by (metis (no_types, lifting))
  qed
  then show "\<forall>r. NTPCNNModel_prepare_input config batch = Inr r \<longrightarrow>
             length (image r) = length (titles batch)
             \<and> (\<forall>img \<in> set (image r). length img = 1
                   \<and> (\<forall>ch \<in> set img. length ch = nat (max_seq_len config)
                         \<and> (\<forall>row \<in> set ch. length row = dict_len (label2id config))))"
    by blast
qed

theorem NTPCNNModel_prepare_input_defined_iff_witness:
  "NTPCNNModel_prepare_input demo_config \<lparr>titles = [[''a'', ''b''], [''c'']], label_ids = Some [[1], [0]]\<rparr>
     = Inr \<lparr>image =
          [[[[Finite 1, Finite 0, Finite 0], [Finite 1, Finite 1, Finite 0],
             [Finite 0, Finite 0, Finite 0], [Finite 0, Finite 0, Finite 0]]],
           [[[Finite 0, Finite 0, Finite 1], [Finite 0, Finite 0, Finite 0],
             [Finite 0, Finite 0, Finite 0], [Finite 0, Finite 0, Finite 0]]]],
        input_labels = Some [1, 0]\<rparr>
   \<and> NTPCNNModel_prepare_input demo_config \<lparr>titles = [[''a'', ''b''], []], label_ids = None\<rparr>
       = Inl ValueError"
  using NTPCNNModel_prepare_input_defined_iff [of demo_config
      "\<lparr>titles = [[''a'', ''b''], [''c'']], label_ids = Some [[1], [0]]\<rparr>"]
    NTPCNNModel_prepare_input_defined_iff [of demo_config
      "\<lparr>titles = [[''a'', ''b''], []], label_ids = None\<rparr>"]
  by (simp add: demo_config_def NTPCNNModel_prepare_input_def torch_stack_def padded_counts_def
      image_of_titles_def dict_len_def dict_get_def np_index_def np_vstack_def np_pad_rows_def
      np_max_def float_div_def valid_label_ids_def eval_nat_numeral)

section \<open>Configuration round trip and choice of the task\<close>

lemma str_list_PStr: "str_list (map PStr ls) = Some ls"
  by (induction ls) simp_all

lemma no_parameters_Nil: "no_parameters t [] = Inr t"
  by (simp add: no_parameters_def)

lemma Task_from_eval_to_json:
  "Task_from_eval (fst (Task_to_json t)) (snd (Task_to_json t)) = Inr t"
proof (cases t)
  case DirectNTP
  then show ?thesis by (simp add: Task_from_eval_def no_parameters_Nil)
next
  case DirectNTPSideInfo
  then show ?thesis by (simp add: Task_from_eval_def no_parameters_Nil)
next
  case (BoolNTP ls)
  then show ?thesis by (simp add: Task_from_eval_def str_list_PStr)
next
  case ClusteredNTP
  then show ?thesis by (simp add: Task_from_eval_def no_parameters_Nil)
next
  case ClusteredNTPSideInfo
  then show ?thesis by (simp add: Task_from_eval_def no_parameters_Nil)
qed

lemma eval_tasks_to_json: "eval_tasks (map Task_to_json ts) = Inr ts"
proof (induction ts)
  case Nil
  show ?case by simp
next
  case (Cons t ts)
  obtain c p where cp: "Task_to_json t = (c, p)" by (cases "Task_to_json t")
  have "Task_from_eval c p = Inr t"
    using Task_from_eval_to_json [of t] by (simp add: cp)
  with Cons cp show ?case by simp
qed

text \<open>
  C7. \<open>to_dict\<close> stores the labels \<open>ls\<close> of the vocabulary, held as an array or as a list,
  as the plain list \<open>ls\<close>, and every training task and the test task as a pair of class
  tag and parameter dictionary from which \<open>Task.from_eval\<close> rebuilds that task. \<open>from_dict\<close>
  on this dictionary, without keyword arguments, returns a configuration with the same
  training tasks in the same order, the same test task and the labels \<open>ls\<close> in the same
  order, held as a list.
\<close>

theorem from_dict_to_dict:
  assumes "all_unique_labels config = NpArray ls \<or> all_unique_labels config = PyList ls"
  shows "dict_all_unique_labels (to_dict config) = Some ls
         \<and> (\<exists>js jt. dict_training_tasks (to_dict config) = Some js
               \<and> dict_test_task (to_dict config) = Some jt
               \<and> length js = length (training_tasks config)
               \<and> (\<forall>i < length js.
                     Task_from_eval (fst (js ! i)) (snd (js ! i)) = Inr (training_tasks config ! i))
               \<and> Task_from_eval (fst jt) (snd jt) = Inr (test_task config))
         \<and> (\<exists>reloaded. from_dict (to_dict config) no_kwargs = Inr reloaded
               \<and> training_tasks reloaded = training_tasks config
               \<and> test_task reloaded = test_task config
               \<and> all_unique_labels reloaded = PyList ls
               \<and> num_return_sequences reloaded = num_return_sequences config)"
proof -
  have els: "elements (all_unique_labels config) = ls"
    using assms by auto
  obtain c p where cp: "Task_to_json (test_task config) = (c, p)"
    by (cases "Task_to_json (test_task config)")
  have fe: "Task_from_eval c p = Inr (test_task config)"
    using Task_from_eval_to_json [of "test_task config"] by (simp add: cp)
  have a: "dict_all_unique_labels (to_dict config) = Some ls"
    by (simp add: to_dict_def els)
  have b: "dict_training_tasks (to_dict config) = Some (map Task_to_json (training_tasks config))"
    "dict_test_task (to_dict config) = Some (Task_to_json (test_task config))"
    by (simp_all add: to_dict_def)
  have c: "\<forall>i < length (map Task_to_json (training_tasks config)).
             Task_from_eval (fst (map Task_to_json (training_tasks config) ! i))
               (snd (map Task_to_json (training_tasks config) ! i))
             = Inr (training_tasks config ! i)"
    by (simp add: Task_from_eval_to_json)
  have d: "from_dict (to_dict config) no_kwargs
             = Inr (config\<lparr>all_unique_labels := PyList ls\<rparr>)"
    by (simp add: from_dict_def to_dict_def no_kwargs_def eval_tasks_to_json els cp fe
        NTPT5Config_init_def)
  from a b c d fe cp show ?thesis by simp
qed

theorem from_dict_to_dict_witness:
  "to_dict demo_t5_config =
     \<lparr>dict_training_tasks =
        Some [(''DirectNTP'', []), (''DirectNTPSideInfo'', []),
              (''BoolNTP'', [(''all_labels'', PList [PStr ''a'', PStr ''b''])])],
      dict_test_task = Some (''ClusteredNTPSideInfo'', []),
      dict_all_unique_labels = Some [''a'', ''b''],
      dict_num_return_sequences = 3\<rparr>
   \<and> from_dict (to_dict demo_t5_config) no_kwargs =
       Inr \<lparr>training_tasks = [DirectNTP, DirectNTPSideInfo, BoolNTP [''a'', ''b'']],
            test_task = ClusteredNTPSideInfo,
            all_unique_labels = PyList [''a'', ''b''],
            num_return_sequences = 3\<rparr>"
proof -
  from from_dict_to_dict [of demo_t5_config "[''a'', ''b'']"]
  obtain reloaded where r: "from_dict (to_dict demo_t5_config) no_kwargs = Inr reloaded"
    "training_tasks reloaded = training_tasks demo_t5_config"
    "test_task reloaded = test_task demo_t5_config"
    "all_unique_labels reloaded = PyList [''a'', ''b'']"
    "num_return_sequences reloaded = num_return_sequences demo_t5_config"
    by (auto simp: demo_t5_config_def)
  have "reloaded = \<lparr>training_tasks = [DirectNTP, DirectNTPSideInfo, BoolNTP [''a'', ''b'']],
            test_task = ClusteredNTPSideInfo,
            all_unique_labels = PyList [''a'', ''b''],
            num_return_sequences = 3\<rparr>"
    using r(2-5) by (cases reloaded) (simp add: demo_t5_config_def)
  with r(1) show ?thesis by (simp add: to_dict_def demo_t5_config_def)
qed

lemma prob_append: "prob (d @ e) A = prob d A + prob e A"
  by (simp add: prob_def)

lemma prob_Nil: "prob [] A = 0"
  by (simp add: prob_def)

lemma prob_Cons: "prob ((x, p) # d) A = (if A x then p else 0) + prob d A"
  by (simp add: prob_def)

lemma prob_scale: "prob (map (\<lambda>(y, q). (y, p * q)) d) A = p * prob d A"
  by (induction d) (auto simp: prob_Nil prob_Cons algebra_simps)

lemma prob_pair_with:
  "prob (bind_dist e (\<lambda>b. return_dist (x, b))) (\<lambda>(a, b). A a \<and> B b)
     = (if A x then prob e B else 0)"
  by (induction e) (auto simp: bind_dist_def return_dist_def prob_Nil prob_Cons prob_append)

lemma prob_two_draws:
  "prob (bind_dist d (\<lambda>a. bind_dist e (\<lambda>b. return_dist (a, b)))) (\<lambda>(a, b). A a \<and> B b)
     = prob d A * prob e B"
proof (induction d)
  case Nil
  show ?case by (simp add: bind_dist_def prob_Nil)
next
  case (Cons xp d)
  obtain x p where xp: "xp = (x, p)" by (cases xp)
  have "bind_dist (xp # d) (\<lambda>a. bind_dist e (\<lambda>b. return_dist (a, b)))
          = map (\<lambda>(y, q). (y, p * q)) (bind_dist e (\<lambda>b. return_dist (x, b)))
            @ bind_dist d (\<lambda>a. bind_dist e (\<lambda>b. return_dist (a, b)))"
    by (simp add: bind_dist_def xp)
  then have "prob (bind_dist (xp # d) (\<lambda>a. bind_dist e (\<lambda>b. return_dist (a, b))))
               (\<lambda>(a, b). A a \<and> B b)
             = p * (if A x then prob e B else 0) + prob d A * prob e B"
    using Cons.IH by (simp only: prob_append prob_scale prob_pair_with)
  then show ?case
    by (simp add: xp prob_Cons algebra_simps)
qed

lemma prob_uniform_outcome:
  "prob (map (\<lambda>x. (Inr x, c)) seq) (\<lambda>r. r = Inr t) = of_nat (count_list seq t) * c"
  by (induction seq) (auto simp: prob_Nil prob_Cons algebra_simps)

lemma prob_uniform_total:
  "prob (map (\<lambda>x. (Inr x, c)) seq) (\<lambda>r. True) = of_nat (length seq) * c"
  by (induction seq) (auto simp: prob_Nil prob_Cons algebra_simps)

lemma count_list_distinct_nth:
  "distinct seq \<Longrightarrow> i < length seq \<Longrightarrow> count_list seq (seq ! i) = 1"
proof (induction seq arbitrary: i)
  case Nil
  then show ?case by simp
next
  case (Cons x seq)
  show ?case
  proof (cases i)
    case 0
    with Cons.prems show ?thesis by (simp add: count_list_0_iff)
  next
    case (Suc j)
    with Cons.prems have "seq ! j \<noteq> x" by auto
    with Cons Suc show ?thesis by simp
  qed
qed

text \<open>
  C8. Outside training mode \<open>tokenize\<close> uses the one configured test task with
  probability 1: nothing is sampled. In training mode, with at least one training task,
  the task is drawn from the configured list uniformly: a task has the probability of
  its number of occurrences in the list over the length of the list, so each of \<open>n\<close>
  different tasks has probability \<open>1 / n\<close>, and the probabilities of the outcomes add up
  to 1. The draws of two calls are independent: the probability that the first call
  uses a task \<open>s\<close> and the second a task \<open>t\<close> is the product of the two probabilities, so
  the task is drawn anew on each call.
\<close>

theorem tokenize_task_uniform_independent:
  "(\<not> training \<longrightarrow>
      tokenize_task training config = [(Inr (test_task config), 1)]
      \<and> prob (tokenize_task training config) (\<lambda>r. r = Inr (test_task config)) = 1)
   \<and> (training \<and> training_tasks config \<noteq> [] \<longrightarrow>
        (\<forall>t. prob (tokenize_task training config) (\<lambda>r. r = Inr t)
               = of_nat (count_list (training_tasks config) t)
                   / of_nat (length (training_tasks config)))
        \<and> (distinct (training_tasks config) \<longrightarrow>
              (\<forall>i < length (training_tasks config).
                 prob (tokenize_task training config) (\<lambda>r. r = Inr (training_tasks config ! i))
                   = 1 / of_nat (length (training_tasks config))))
        \<and> prob (tokenize_task training config) (\<lambda>r. True) = 1
        \<and> (\<forall>s t. prob (tokenize_twice training config) (\<lambda>(a, b). a = Inr s \<and> b = Inr t)
                 = prob (tokenize_task training config) (\<lambda>r. r = Inr s)
                   * prob (tokenize_task training config) (\<lambda>r. r = Inr t)))"
proof -
  have eval: "tokenize_task training config = [(Inr (test_task config), 1)]
      \<and> prob (tokenize_task training config) (\<lambda>r. r = Inr (test_task config)) = 1"
    if "\<not> training"
    using that by (simp add: tokenize_task_def return_dist_def prob_Cons prob_Nil)
  have train: "(\<forall>t. prob (tokenize_task training config) (\<lambda>r. r = Inr t)
               = of_nat (count_list (training_tasks config) t)
                   / of_nat (length (training_tasks config)))
        \<and> (distinct (training_tasks config) \<longrightarrow>
              (\<forall>i < length (training_tasks config).
                 prob (tokenize_task training config) (\<lambda>r. r = Inr (training_tasks config ! i))
                   = 1 / of_nat (length (training_tasks config))))
        \<and> prob (tokenize_task training config) (\<lambda>r. True) = 1
        \<and> (\<forall>s t. prob (tokenize_twice training config) (\<lambda>(a, b). a = Inr s \<and> b = Inr t)
                 = prob (tokenize_task training config) (\<lambda>r. r = Inr s)
                   * prob (tokenize_task training config) (\<lambda>r. r = Inr t))"
    if tr: "training \<and> training_tasks config \<noteq> []"
  proof -
    let ?n = "length (training_tasks config)"
    have tok: "tokenize_task training config
                 = map (\<lambda>x. (Inr x, 1 / of_nat ?n)) (training_tasks config)"
      using tr by (simp add: tokenize_task_def random_choice_def)
    have count: "\<forall>t. prob (tokenize_task training config) (\<lambda>r. r = Inr t)
                 = of_nat (count_list (training_tasks config) t) / of_nat ?n"
      by (simp add: tok prob_uniform_outcome)
    have each: "distinct (training_tasks config) \<longrightarrow>
            (\<forall>i < ?n. prob (tokenize_task training config)
                         (\<lambda>r. r = Inr (training_tasks config ! i))
                        = 1 / of_nat ?n)"
      using count by (simp add: count_list_distinct_nth)
    have total: "prob (tokenize_task training config) (\<lambda>r. True) = 1"
      unfolding tok prob_uniform_total using tr by simp
    have indep: "\<forall>s t. prob (tokenize_twice training config) (\<lambda>(a, b). a = Inr s \<and> b = Inr t)
                   = prob (tokenize_task training config) (\<lambda>r. r = Inr s)
                     * prob (tokenize_task training config) (\<lambda>r. r = Inr t)"
      by (simp add: tokenize_twice_def prob_two_draws)
    from count each total indep show ?thesis by blast
  qed
  from eval train show ?thesis by blast
qed

theorem tokenize_task_uniform_independent_witness:
  "prob (tokenize_task True demo_t5_config) (\<lambda>r. r = Inr DirectNTPSideInfo) = 1 / 3
   \<and> prob (tokenize_task True demo_t5_config) (\<lambda>r. r = Inr ClusteredNTP) = 0
   \<and> prob (tokenize_twice True demo_t5_config)
        (\<lambda>(a, b). a = Inr DirectNTP \<and> b = Inr (BoolNTP [''a'', ''b''])) = 1 / 9
   \<and> tokenize_task False demo_t5_config = [(Inr ClusteredNTPSideInfo, 1)]"
proof -
  have ne: "True \<and> training_tasks demo_t5_config \<noteq> []"
    by (simp add: demo_t5_config_def)
  from tokenize_task_uniform_independent [of True demo_t5_config] ne
  have count: "\<And>t. prob (tokenize_task True demo_t5_config) (\<lambda>r. r = Inr t)
               = of_nat (count_list (training_tasks demo_t5_config) t)
                   / of_nat (length (training_tasks demo_t5_config))"
    and indep: "\<And>s t. prob (tokenize_twice True demo_t5_config)
                         (\<lambda>(a, b). a = Inr s \<and> b = Inr t)
                 = prob (tokenize_task True demo_t5_config) (\<lambda>r. r = Inr s)
                   * prob (tokenize_task True demo_t5_config) (\<lambda>r. r = Inr t)"
    by blast+
  have tt: "training_tasks demo_t5_config = [DirectNTP, DirectNTPSideInfo, BoolNTP [''a'', ''b'']]"
    by (simp add: demo_t5_config_def)
  have a: "prob (tokenize_task True demo_t5_config) (\<lambda>r. r = Inr DirectNTPSideInfo) = 1 / 3"
    by (simp add: count [of DirectNTPSideInfo] tt)
  have b: "prob (tokenize_task True demo_t5_config) (\<lambda>r. r = Inr ClusteredNTP) = 0"
    by (simp add: count [of ClusteredNTP] tt)
  have c: "prob (tokenize_twice True demo_t5_config)
        (\<lambda>(a, b). a = Inr DirectNTP \<and> b = Inr (BoolNTP [''a'', ''b''])) = 1 / 9"
    by (simp add: indep [of DirectNTP "BoolNTP [''a'', ''b'']"] count [of DirectNTP]
        count [of "BoolNTP [''a'', ''b'']"] tt)
  have d: "tokenize_task False demo_t5_config = [(Inr ClusteredNTPSideInfo, 1)]"
    using tokenize_task_uniform_independent [of False demo_t5_config]
    by (simp add: demo_t5_config_def)
  from a b c d show ?thesis by simp
qed

section \<open>Batching of the T5 model\<close>

lemma fold_max_ge: "(m::nat) \<le> fold max xs m \<and> (\<forall>x \<in> set xs. x \<le> fold max xs m)"
proof (induction xs arbitrary: m)
  case Nil
  show ?case by simp
next
  case (Cons x xs)
  from Cons.IH [of "max x m"] show ?case by auto
qed

lemma fold_max_in: "fold max xs (m::nat) = m \<or> fold max xs m \<in> set xs"
proof (induction xs arbitrary: m)
  case Nil
  show ?case by simp
next
  case (Cons x xs)
  from Cons.IH [of "max x m"] show ?case by (auto simp: max_def split: if_splits)
qed

lemma max_length_ge: "s \<in> set sequences \<Longrightarrow> length s \<le> max_length sequences"
  using fold_max_ge [of 0 "map length sequences"] by (simp add: max_length_def)

lemma max_length_attained:
  assumes "sequences \<noteq> []"
  shows "\<exists>s \<in> set sequences. length s = max_length sequences"
proof -
  from fold_max_in [of "map length sequences" 0]
  consider "max_length sequences = 0" | "max_length sequences \<in> set (map length sequences)"
    by (auto simp: max_length_def)
  then show ?thesis
  proof cases
    case 1
    from assms obtain s where s: "s \<in> set sequences" by (cases sequences) auto
    with max_length_ge [OF s] 1 show ?thesis by auto
  next
    case 2
    then show ?thesis by auto
  qed
qed

lemma pad_sequence_padded:
  assumes "sequences \<noteq> []"
  shows "\<exists>out. pad_sequence sequences pad = Inr out \<and> padded_to pad sequences out
           \<and> length out = length sequences
           \<and> (\<forall>i < length sequences. length (out ! i) = max_length sequences
                \<and> (\<forall>p < max_length sequences.
                      out ! i ! p = (if p < length (sequences ! i) then sequences ! i ! p else pad)))"
proof -
  let ?n = "max_length sequences"
  let ?out = "map (\<lambda>s. s @ replicate (?n - length s) pad) sequences"
  have eq: "pad_sequence sequences pad = Inr ?out"
    using assms by (simp add: pad_sequence_def)
  have len: "\<And>i. i < length sequences \<Longrightarrow> length (sequences ! i) \<le> ?n"
    by (simp add: max_length_ge)
  have cells: "\<forall>i < length sequences. length (?out ! i) = ?n
                \<and> take (length (sequences ! i)) (?out ! i) = sequences ! i
                \<and> (\<forall>p < ?n. ?out ! i ! p = (if p < length (sequences ! i) then sequences ! i ! p else pad))"
    using len by (auto simp: nth_append)
  have "padded_to pad sequences ?out"
    unfolding padded_to_def
  proof (intro conjI exI [of _ ?n])
    show "length ?out = length sequences" by simp
    show "\<forall>s \<in> set sequences. length s \<le> ?n" by (simp add: max_length_ge)
    show "\<exists>s \<in> set sequences. length s = ?n" using assms by (rule max_length_attained)
    show "\<forall>i < length sequences. length (?out ! i) = ?n
            \<and> take (length (sequences ! i)) (?out ! i) = sequences ! i
            \<and> (\<forall>p. length (sequences ! i) \<le> p \<and> p < ?n \<longrightarrow> ?out ! i ! p = pad)"
      using cells by auto
  qed
  with eq cells show ?thesis by auto
qed

text \<open>
  C6. On a batch with at least one sequence in each field, \<open>NTPT5.prepare_input\<close> returns
  and pads the token ids and the attention masks with the pad token id to the length of
  the longest sequence of that field in this batch. The label sequences are padded in the
  same way to the longest label sequence of the batch, and then every position that holds
  the pad token id is \<open>-100\<close>: a position keeps its value exactly when it lies inside
  the sequence and its value is not the pad token id, so every position beyond the true
  length of a label sequence is \<open>-100\<close>.
\<close>

theorem NTPT5_prepare_input_pads:
  assumes "input_ids batch \<noteq> []" and "attention_mask batch \<noteq> []"
    and "lm_labels batch = Some ls" and "ls \<noteq> []"
  shows "\<exists>r out. NTPT5_prepare_input training pad batch = Inr r
           \<and> padded_to pad (input_ids batch) (prepared_input_ids r)
           \<and> padded_to pad (attention_mask batch) (prepared_attention_mask r)
           \<and> prepared_labels r = Some out \<and> length out = length ls
           \<and> (\<exists>n. (\<forall>s \<in> set ls. length s \<le> n) \<and> (\<exists>s \<in> set ls. length s = n)
                \<and> (\<forall>i < length ls. length (out ! i) = n
                      \<and> (\<forall>p < n. out ! i ! p =
                            (if p < length (ls ! i) \<and> ls ! i ! p \<noteq> pad then ls ! i ! p
                             else - 100))))"
proof -
  from pad_sequence_padded [OF assms(1)] obtain ids where
    ids: "pad_sequence (input_ids batch) pad = Inr ids" "padded_to pad (input_ids batch) ids"
    by blast
  from pad_sequence_padded [OF assms(2)] obtain am where
    am: "pad_sequence (attention_mask batch) pad = Inr am"
      "padded_to pad (attention_mask batch) am"
    by blast
  from pad_sequence_padded [OF assms(4)] obtain padded where
    pl: "pad_sequence ls pad = Inr padded" "length padded = length ls"
    and cells: "\<forall>i < length ls. length (padded ! i) = max_length ls
        \<and> (\<forall>p < max_length ls. padded ! i ! p = (if p < length (ls ! i) then ls ! i ! p else pad))"
    by blast
  let ?out = "ignore_pad pad padded"
  let ?r = "\<lparr>prepared_input_ids = ids, prepared_attention_mask = am,
             prepared_labels = Some ?out,
             prepared_immediate_next_title =
               (if \<not> training then Some (immediate_next_title batch) else None)\<rparr>"
  have r: "NTPT5_prepare_input training pad batch = Inr ?r"
    using ids(1) am(1) pl(1) assms(3) by (simp add: NTPT5_prepare_input_def)
  have out: "\<forall>i < length ls. length (?out ! i) = max_length ls
        \<and> (\<forall>p < max_length ls. ?out ! i ! p =
              (if p < length (ls ! i) \<and> ls ! i ! p \<noteq> pad then ls ! i ! p else - 100))"
    using cells pl(2) by (auto simp: ignore_pad_def)
  have n: "(\<forall>s \<in> set ls. length s \<le> max_length ls) \<and> (\<exists>s \<in> set ls. length s = max_length ls)"
    using max_length_ge max_length_attained [OF assms(4)] by blast
  have "length ?out = length ls" using pl(2) by (simp add: ignore_pad_def)
  with r ids(2) am(2) out n show ?thesis
    by (intro exI [of _ ?r] exI [of _ ?out] conjI exI [of _ "max_length ls"]) simp_all
qed

theorem NTPT5_prepare_input_pads_witness:
  "NTPT5_prepare_input False 0
     \<lparr>input_ids = [[5, 6, 7], [8]], attention_mask = [[1, 1, 1], [1]],
      lm_labels = Some [[9, 0], [4, 3, 2]], immediate_next_title = [''x'', ''y'']\<rparr>
   = Inr \<lparr>prepared_input_ids = [[5, 6, 7], [8, 0, 0]],
          prepared_attention_mask = [[1, 1, 1], [1, 0, 0]],
          prepared_labels = Some [[9, - 100, - 100], [4, 3, 2]],
          prepared_immediate_next_title = Some [''x'', ''y'']\<rparr>"
  using NTPT5_prepare_input_pads [of
     "\<lparr>input_ids = [[5, 6, 7], [8]], attention_mask = [[1, 1, 1], [1]],
      lm_labels = Some [[9, 0], [4, 3, 2]], immediate_next_title = [''x'', ''y'']\<rparr>"
     "[[9, 0], [4, 3, 2]]" False 0]
  by (simp add: NTPT5_prepare_input_def pad_sequence_def max_length_def ignore_pad_def
      eval_nat_numeral)

section \<open>The evaluation step\<close>

lemma argmax_scan_spec:
  assumes "best < i" and "i = best + k" "k \<le> length pre" "length pre = i"
    and "pre ! best = v" and "\<forall>c < i. pre ! c \<le> v" and "\<forall>c < best. pre ! c < v"
  shows "argmax_scan xs i best v < length (pre @ xs)
         \<and> (\<forall>c < length (pre @ xs). (pre @ xs) ! c \<le> (pre @ xs) ! argmax_scan xs i best v)
         \<and> (\<forall>c < argmax_scan xs i best v. (pre @ xs) ! c < (pre @ xs) ! argmax_scan xs i best v)"
  using assms
proof (induction xs arbitrary: i best v pre k)
  case Nil
  then show ?case by auto
next
  case (Cons x xs)
  show ?case
  proof (cases "v < x")
    case True
    have a: "argmax_scan (x # xs) i best v = argmax_scan xs (Suc i) i x"
      using True by simp
    have "argmax_scan xs (Suc i) i x < length ((pre @ [x]) @ xs)
         \<and> (\<forall>c < length ((pre @ [x]) @ xs).
               ((pre @ [x]) @ xs) ! c \<le> ((pre @ [x]) @ xs) ! argmax_scan xs (Suc i) i x)
         \<and> (\<forall>c < argmax_scan xs (Suc i) i x.
               ((pre @ [x]) @ xs) ! c < ((pre @ [x]) @ xs) ! argmax_scan xs (Suc i) i x)"
    proof (rule Cons.IH [of i "Suc i" 1 "pre @ [x]" x])
      show "i < Suc i" by simp
      show "Suc i = i + 1" by simp
      show "1 \<le> length (pre @ [x])" by simp
      show "length (pre @ [x]) = Suc i" using Cons.prems by simp
      show "(pre @ [x]) ! i = x" using Cons.prems by (simp add: nth_append)
      show "\<forall>c < Suc i. (pre @ [x]) ! c \<le> x"
        using Cons.prems True by (auto simp: nth_append less_Suc_eq intro: order.trans less_imp_le)
      show "\<forall>c < i. (pre @ [x]) ! c < x"
        using Cons.prems True by (auto simp: nth_append intro: le_less_trans)
    qed
    then show ?thesis using True by simp
  next
    case False
    have a: "argmax_scan (x # xs) i best v = argmax_scan xs (Suc i) best v"
      using False by simp
    have "argmax_scan xs (Suc i) best v < length ((pre @ [x]) @ xs)
         \<and> (\<forall>c < length ((pre @ [x]) @ xs).
               ((pre @ [x]) @ xs) ! c \<le> ((pre @ [x]) @ xs) ! argmax_scan xs (Suc i) best v)
         \<and> (\<forall>c < argmax_scan xs (Suc i) best v.
               ((pre @ [x]) @ xs) ! c < ((pre @ [x]) @ xs) ! argmax_scan xs (Suc i) best v)"
    proof (rule Cons.IH [of best "Suc i" "Suc k" "pre @ [x]" v])
      show "best < Suc i" using Cons.prems by simp
      show "Suc i = best + Suc k" using Cons.prems by simp
      show "Suc k \<le> length (pre @ [x])" using Cons.prems by simp
      show "length (pre @ [x]) = Suc i" using Cons.prems by simp
      show "(pre @ [x]) ! best = v" using Cons.prems by (simp add: nth_append)
      show "\<forall>c < Suc i. (pre @ [x]) ! c \<le> v"
        using Cons.prems False by (auto simp: nth_append less_Suc_eq)
      show "\<forall>c < best. (pre @ [x]) ! c < v"
        using Cons.prems by (auto simp: nth_append)
    qed
    then show ?thesis using False by simp
  qed
qed

lemma row_argmax_first_max:
  assumes "row \<noteq> []"
  shows "row_argmax row < length row
         \<and> (\<forall>c < length row. row ! c \<le> row ! row_argmax row)
         \<and> (\<forall>c < row_argmax row. row ! c < row ! row_argmax row)"
proof -
  from assms obtain x xs where row: "row = x # xs" by (cases row) auto
  have "argmax_scan xs 1 0 x < length ([x] @ xs)
         \<and> (\<forall>c < length ([x] @ xs). ([x] @ xs) ! c \<le> ([x] @ xs) ! argmax_scan xs 1 0 x)
         \<and> (\<forall>c < argmax_scan xs 1 0 x. ([x] @ xs) ! c < ([x] @ xs) ! argmax_scan xs 1 0 x)"
    by (rule argmax_scan_spec [of 0 1 1 "[x]" x]) simp_all
  then show ?thesis by (simp add: row row_argmax_def)
qed

lemma count_matches_filter:
  "count_matches predictions k j0 ts =
     length (filter (\<lambda>j. truth_in_block predictions k (j0 + j) (ts ! j)) [0..<length ts])"
proof (induction ts arbitrary: j0)
  case Nil
  show ?case by simp
next
  case (Cons t ts)
  have "[0..<length (t # ts)] = 0 # map Suc [0..<length ts]"
    by (simp add: upt_conv_Cons map_Suc_upt del: upt_Suc)
  then show ?case
    by (simp add: Cons.IH [of "Suc j0"] filter_map o_def del: upt_Suc)
qed

text \<open>
  With the label vocabulary held as an array of at least one label and a similarity
  matrix with one column per label, \<open>valid_step\<close> maps every candidate (row) to the label
  at the first index of the maximal similarity of its row, and the match count it
  returns is the number of inputs \<open>j\<close> whose ground truth occurs among the \<open>k\<close> mapped
  labels at positions \<open>j * k, ..., (j + 1) * k - 1\<close>, the block of that input, \<open>k\<close> being
  the configured number of returned sequences.
\<close>

lemma valid_step_array_vocabulary:
  assumes "all_unique_labels config = NpArray ls" and "ls \<noteq> []"
    and "\<forall>row \<in> set sim. length row = length ls"
  shows "mapped_predictions config sim = Inr (LabelArray (map (\<lambda>row. ls ! row_argmax row) sim))
         \<and> (\<forall>row \<in> set sim. row_argmax row < length ls
               \<and> (\<forall>c < length ls. row ! c \<le> row ! row_argmax row)
               \<and> (\<forall>c < row_argmax row. row ! c < row ! row_argmax row))
         \<and> valid_step config sim val_loss target_text =
             Inr (length (filter
                    (\<lambda>j. target_text ! j \<in>
                           set (take (num_return_sequences config)
                                  (drop (j * num_return_sequences config)
                                     (map (\<lambda>row. ls ! row_argmax row) sim))))
                    [0..<length target_text]),
                  val_loss)"
proof -
  have best: "\<forall>row \<in> set sim. row_argmax row < length ls
               \<and> (\<forall>c < length ls. row ! c \<le> row ! row_argmax row)
               \<and> (\<forall>c < row_argmax row. row ! c < row ! row_argmax row)"
  proof
    fix row assume r: "row \<in> set sim"
    with assms(2,3) have "row \<noteq> []" "length row = length ls" by auto
    with row_argmax_first_max [of row]
    show "row_argmax row < length ls
               \<and> (\<forall>c < length ls. row ! c \<le> row ! row_argmax row)
               \<and> (\<forall>c < row_argmax row. row ! c < row ! row_argmax row)"
      by simp
  qed
  have mp: "mapped_predictions config sim
              = Inr (LabelArray (map (\<lambda>row. ls ! row_argmax row) sim))"
    using assms(1,2) best
    by (simp add: mapped_predictions_def argmax_axis1_def index_labels_def o_def)
  have "valid_step config sim val_loss target_text =
          Inr (count_matches (LabelArray (map (\<lambda>row. ls ! row_argmax row) sim))
                 (num_return_sequences config) 0 target_text, val_loss)"
    by (simp add: valid_step_def mp)
  then have vs: "valid_step config sim val_loss target_text =
             Inr (length (filter
                    (\<lambda>j. target_text ! j \<in>
                           set (take (num_return_sequences config)
                                  (drop (j * num_return_sequences config)
                                     (map (\<lambda>row. ls ! row_argmax row) sim))))
                    [0..<length target_text]),
                  val_loss)"
    by (simp add: count_matches_filter truth_in_block_def py_slice_def)
  from mp best vs show ?thesis by blast
qed

text \<open>
  With the label vocabulary held as a Python list, every batch with another number of
  candidates than one makes \<open>valid_step\<close> raise \<open>TypeError\<close> on line 192.
\<close>

lemma list_vocabulary_raises_TypeError:
  assumes "all_unique_labels config = PyList ls" and "ls \<noteq> []" and "length sim \<noteq> 1"
  shows "valid_step config sim val_loss target_text = Inl TypeError"
proof -
  have "map row_argmax sim \<noteq> [i]" for i
    using assms(3) by (cases sim) auto
  then have "index_labels (PyList ls) (map row_argmax sim) = Inl TypeError"
    by (cases "map row_argmax sim" rule: list.exhaust; cases "tl (map row_argmax sim)")
       (auto simp: index_labels_def)
  then show ?thesis
    using assms(1,2)
    by (simp add: valid_step_def mapped_predictions_def argmax_axis1_def)
qed

text \<open>
  C5. One input with three returned sequences, whose first candidate is most similar to
  the ground truth \<open>a\<close>: the claim asks for the match count 1, and with the vocabulary held
  as an array \<open>valid_step\<close> returns it. With the same vocabulary held as a Python list,
  as \<open>t5_main\<close> passes it on line 257 and as \<open>to_dict\<close> stores it on line 75,
  \<open>valid_step\<close> raises \<open>TypeError\<close>, since a list cannot be indexed by a tensor of three
  indices.
\<close>

theorem valid_step_list_vocabulary_raises:
  "valid_step
     \<lparr>training_tasks = [DirectNTP], test_task = DirectNTP,
      all_unique_labels = PyList [''a'', ''b''], num_return_sequences = 3\<rparr>
     [[9, 1], [1, 9], [2, 3 :: int]] (0 :: nat) [''a'']
   = Inl TypeError
   \<and> valid_step
     \<lparr>training_tasks = [DirectNTP], test_task = DirectNTP,
      all_unique_labels = NpArray [''a'', ''b''], num_return_sequences = 3\<rparr>
     [[9, 1], [1, 9], [2, 3 :: int]] (0 :: nat) [''a'']
   = Inr (1, 0)"
  by (simp add: valid_step_def mapped_predictions_def argmax_axis1_def index_labels_def
      row_argmax_def truth_in_block_def py_slice_def eval_nat_numeral)

section \<open>Chunked encoding\<close>

lemma dataset_iter_Nil: "dataset_iter batch_size [] = []"
  by simp

lemma dataset_iter_step:
  "0 < batch_size \<Longrightarrow> rows \<noteq> [] \<Longrightarrow>
     dataset_iter batch_size rows = take batch_size rows # dataset_iter batch_size (drop batch_size rows)"
  by simp

declare dataset_iter.simps [simp del]

lemma concat_dataset_iter: "0 < batch_size \<Longrightarrow> concat (dataset_iter batch_size rows) = rows"
proof (induction batch_size rows rule: dataset_iter.induct)
  case (1 batch_size rows)
  show ?case
  proof (cases "rows = []")
    case True
    then show ?thesis by (simp add: dataset_iter_Nil)
  next
    case False
    with 1 show ?thesis by (simp add: dataset_iter_step)
  qed
qed

lemma dataset_iter_nth:
  "0 < batch_size \<Longrightarrow> k < length (dataset_iter batch_size rows) \<Longrightarrow>
     dataset_iter batch_size rows ! k = take batch_size (drop (k * batch_size) rows)"
proof (induction batch_size rows arbitrary: k rule: dataset_iter.induct)
  case (1 batch_size rows)
  show ?case
  proof (cases "rows = []")
    case True
    with "1.prems" show ?thesis by (simp add: dataset_iter_Nil)
  next
    case False
    show ?thesis
    proof (cases k)
      case 0
      with False "1.prems" show ?thesis by (simp add: dataset_iter_step)
    next
      case (Suc k')
      with False "1.prems" have "k' < length (dataset_iter batch_size (drop batch_size rows))"
        by (simp add: dataset_iter_step)
      with "1.IH" False "1.prems"(1)
      have "dataset_iter batch_size (drop batch_size rows) ! k'
              = take batch_size (drop (k' * batch_size) (drop batch_size rows))"
        by simp
      with False "1.prems"(1) Suc show ?thesis
        by (simp add: dataset_iter_step add.commute)
    qed
  qed
qed

lemma dataset_iter_chunk_size:
  "0 < batch_size \<Longrightarrow> c \<in> set (dataset_iter batch_size rows) \<Longrightarrow>
     0 < length c \<and> length c \<le> batch_size"
proof (induction batch_size rows rule: dataset_iter.induct)
  case (1 batch_size rows)
  show ?case
  proof (cases "rows = []")
    case True
    with "1.prems" show ?thesis by (simp add: dataset_iter_Nil)
  next
    case False
    with 1 show ?thesis by (auto simp: dataset_iter_step)
  qed
qed

lemma concat_blocks_nth:
  assumes "0 < batch_size"
    and "\<forall>c \<in> set (dataset_iter batch_size rows). length (f c) = length c"
    and "i < length rows"
  shows "concat (map f (dataset_iter batch_size rows)) ! i
           = f (dataset_iter batch_size rows ! (i div batch_size)) ! (i mod batch_size)"
  using assms
proof (induction batch_size rows arbitrary: i rule: dataset_iter.induct)
  case (1 batch_size rows)
  from "1.prems" have ne: "rows \<noteq> []" by auto
  have step: "dataset_iter batch_size rows
                = take batch_size rows # dataset_iter batch_size (drop batch_size rows)"
    using "1.prems"(1) ne by (rule dataset_iter_step)
  have lf: "length (f (take batch_size rows)) = min (length rows) batch_size"
    using "1.prems"(2) by (simp add: step)
  show ?case
  proof (cases "i < batch_size")
    case True
    then show ?thesis using "1.prems"(3) lf by (simp add: step nth_append)
  next
    case False
    then have ge: "batch_size \<le> i" by simp
    have "i - batch_size < length (drop batch_size rows)"
      using "1.prems"(3) ge by simp
    moreover have "\<forall>c \<in> set (dataset_iter batch_size (drop batch_size rows)). length (f c) = length c"
      using "1.prems"(2) by (simp add: step)
    ultimately have IH: "concat (map f (dataset_iter batch_size (drop batch_size rows))) ! (i - batch_size)
        = f (dataset_iter batch_size (drop batch_size rows) ! ((i - batch_size) div batch_size))
            ! ((i - batch_size) mod batch_size)"
      using "1.IH" "1.prems"(1) ne by simp
    have d: "i div batch_size = Suc ((i - batch_size) div batch_size)"
      using "1.prems"(1) ge by (simp add: le_div_geq)
    have m: "i mod batch_size = (i - batch_size) mod batch_size"
      using ge by (simp add: le_mod_geq)
    have lf': "length (f (take batch_size rows)) = batch_size"
      using lf "1.prems"(3) ge by simp
    show ?thesis
      using False IH by (simp add: step nth_append lf' d m)
  qed
qed

lemma length_concat_blocks:
  assumes "\<forall>c \<in> set chunks. length (f c) = length c"
  shows "length (concat (map f chunks)) = length (concat chunks)"
  using assms by (induction chunks) simp_all

text \<open>
  C9 (as stated, refuted). On the empty list of sentences no chunk is drawn and
  \<open>torch.vstack\<close> raises on the empty list of outputs. And the row of a sentence is not
  independent of the batch size: with an encoder whose rows depend on the chunk, the
  third of three sentences gets the row 2 when the batch size is 2, where it is alone in
  its chunk, and the row 3 when the batch size is 3.
\<close>

theorem chunked_encoding_counterexample:
  "SentenceEncoder_call 64 padded_length_encoder [] = Inl RuntimeError
   \<and> SentenceEncoder_call 2 padded_length_encoder [''abc'', ''a'', ''ab''] = Inr [3, 3, 2]
   \<and> SentenceEncoder_call 3 padded_length_encoder [''abc'', ''a'', ''ab''] = Inr [3, 3, 3]"
  by (simp add: SentenceEncoder_call_def torch_vstack_def dataset_iter_Nil dataset_iter_step
      padded_length_encoder_def max_length_def eval_nat_numeral)

text \<open>
  C9 (amended). \<open>__call__\<close> raises \<open>ZeroDivisionError\<close> when the batch size is 0 and
  \<open>RuntimeError\<close> when there is no input sentence. For a non-empty list of sentences and a
  positive batch size the input is split into consecutive chunks, chunk \<open>k\<close> being the
  \<open>batch_size\<close> sentences from position \<open>k * batch_size\<close> on (the last chunk what is
  left), none empty and none longer than the batch size, which together are the input.
  When \<open>encode_batch\<close> returns something other than a tensor for a chunk, the call raises
  \<open>TypeError\<close>; otherwise it returns the results of \<open>encode_batch\<close> on the chunks, stacked
  in the order of the chunks. When moreover each result has one row per sentence of its
  chunk, the output has one row per input sentence, and row \<open>i\<close> is the row that
  \<open>encode_batch\<close> gives sentence \<open>i\<close> within its own chunk: row \<open>i mod batch_size\<close> of the
  result for chunk \<open>i div batch_size\<close>.
\<close>

theorem SentenceEncoder_call_chunks:
  "SentenceEncoder_call 0 encode_batch sentences = Inl ZeroDivisionError
   \<and> (0 < batch_size \<longrightarrow> SentenceEncoder_call batch_size encode_batch [] = Inl RuntimeError)
   \<and> (0 < batch_size \<and> sentences \<noteq> [] \<longrightarrow>
        concat (dataset_iter batch_size sentences) = sentences
        \<and> (\<forall>k < length (dataset_iter batch_size sentences).
              dataset_iter batch_size sentences ! k =
                take batch_size (drop (k * batch_size) sentences)
              \<and> 0 < length (dataset_iter batch_size sentences ! k)
              \<and> length (dataset_iter batch_size sentences ! k) \<le> batch_size)
        \<and> ((\<exists>c \<in> set (dataset_iter batch_size sentences). \<not> is_tensor (encode_batch c)) \<longrightarrow>
              SentenceEncoder_call batch_size encode_batch sentences = Inl TypeError)
        \<and> ((\<forall>c \<in> set (dataset_iter batch_size sentences). is_tensor (encode_batch c)) \<longrightarrow>
              SentenceEncoder_call batch_size encode_batch sentences =
                Inr (concat (map (\<lambda>c. rows_of (encode_batch c))
                               (dataset_iter batch_size sentences)))
              \<and> ((\<forall>c \<in> set (dataset_iter batch_size sentences).
                      length (rows_of (encode_batch c)) = length c) \<longrightarrow>
                    (\<exists>out. SentenceEncoder_call batch_size encode_batch sentences = Inr out
                       \<and> length out = length sentences
                       \<and> (\<forall>i < length sentences.
                             out ! i =
                               rows_of (encode_batch
                                          (dataset_iter batch_size sentences ! (i div batch_size)))
                                 ! (i mod batch_size))))))"
proof -
  have zero: "SentenceEncoder_call 0 encode_batch sentences = Inl ZeroDivisionError"
    by (simp add: SentenceEncoder_call_def)
  have empty: "SentenceEncoder_call batch_size encode_batch [] = Inl RuntimeError"
    if "0 < batch_size"
    using that by (simp add: SentenceEncoder_call_def torch_vstack_def dataset_iter_Nil)
  have main: "concat (dataset_iter batch_size sentences) = sentences
        \<and> (\<forall>k < length (dataset_iter batch_size sentences).
              dataset_iter batch_size sentences ! k =
                take batch_size (drop (k * batch_size) sentences)
              \<and> 0 < length (dataset_iter batch_size sentences ! k)
              \<and> length (dataset_iter batch_size sentences ! k) \<le> batch_size)
        \<and> ((\<exists>c \<in> set (dataset_iter batch_size sentences). \<not> is_tensor (encode_batch c)) \<longrightarrow>
              SentenceEncoder_call batch_size encode_batch sentences = Inl TypeError)
        \<and> ((\<forall>c \<in> set (dataset_iter batch_size sentences). is_tensor (encode_batch c)) \<longrightarrow>
              SentenceEncoder_call batch_size encode_batch sentences =
                Inr (concat (map (\<lambda>c. rows_of (encode_batch c))
                               (dataset_iter batch_size sentences)))
              \<and> ((\<forall>c \<in> set (dataset_iter batch_size sentences).
                      length (rows_of (encode_batch c)) = length c) \<longrightarrow>
                    (\<exists>out. SentenceEncoder_call batch_size encode_batch sentences = Inr out
                       \<and> length out = length sentences
                       \<and> (\<forall>i < length sentences.
                             out ! i =
                               rows_of (encode_batch
                                          (dataset_iter batch_size sentences ! (i div batch_size)))
                                 ! (i mod batch_size)))))"
    if pos: "0 < batch_size" and ne: "sentences \<noteq> []"
  proof -
    let ?chunks = "dataset_iter batch_size sentences"
    let ?f = "\<lambda>c. rows_of (encode_batch c)"
    have cne: "?chunks \<noteq> []"
      using pos ne by (simp add: dataset_iter_step)
    have cc: "concat ?chunks = sentences"
      using pos by (rule concat_dataset_iter)
    have chunks: "\<forall>k < length ?chunks.
              ?chunks ! k = take batch_size (drop (k * batch_size) sentences)
              \<and> 0 < length (?chunks ! k) \<and> length (?chunks ! k) \<le> batch_size"
      using dataset_iter_nth [OF pos] dataset_iter_chunk_size [OF pos] nth_mem
      by blast
    have bad: "SentenceEncoder_call batch_size encode_batch sentences = Inl TypeError"
      if "\<exists>c \<in> set ?chunks. \<not> is_tensor (encode_batch c)"
      using that pos cne by (auto simp: SentenceEncoder_call_def torch_vstack_def)
    have good: "SentenceEncoder_call batch_size encode_batch sentences =
                  Inr (concat (map ?f ?chunks))"
      if "\<forall>c \<in> set ?chunks. is_tensor (encode_batch c)"
      using that pos cne by (auto simp: SentenceEncoder_call_def torch_vstack_def o_def)
    have rows: "length (concat (map ?f ?chunks)) = length sentences
                \<and> (\<forall>i < length sentences.
                      concat (map ?f ?chunks) ! i
                        = ?f (?chunks ! (i div batch_size)) ! (i mod batch_size))"
      if len: "\<forall>c \<in> set ?chunks. length (?f c) = length c"
    proof -
      have "length (concat (map ?f ?chunks)) = length (concat ?chunks)"
        using len by (rule length_concat_blocks)
      then have "length (concat (map ?f ?chunks)) = length sentences"
        by (simp only: cc)
      moreover have "\<forall>i < length sentences.
                      concat (map ?f ?chunks) ! i
                        = ?f (?chunks ! (i div batch_size)) ! (i mod batch_size)"
        using concat_blocks_nth [OF pos len] by blast
      ultimately show ?thesis by blast
    qed
    from cc chunks bad good rows show ?thesis by blast
  qed
  from zero empty main show ?thesis by blast
qed

theorem SentenceEncoder_call_chunks_witness:
  "SentenceEncoder_call 2 padded_length_encoder [''abc'', ''a'', ''ab''] = Inr [3, 3, 2]
   \<and> dataset_iter 2 [''abc'', ''a'', ''ab''] = [[''abc'', ''a''], [''ab'']]
   \<and> SentenceEncoder_call 2 (\<lambda>c. NdArray (map length c)) [''abc'', ''a'', ''ab''] = Inl TypeError
   \<and> SentenceEncoder_call 2 padded_length_encoder [] = Inl RuntimeError"
  using SentenceEncoder_call_chunks [of padded_length_encoder "[''abc'', ''a'', ''ab'']" 2]
    SentenceEncoder_call_chunks [of "\<lambda>c. NdArray (map length c)" "[''abc'', ''a'', ''ab'']" 2]
  by (auto simp: dataset_iter_step dataset_iter_Nil padded_length_encoder_def max_length_def
      eval_nat_numeral)

end
